theory Spec2Isabelle
  imports Complex_Main "HOL-Library.AList"
begin

section \<open>The shared thought buffer (core/thought\_engine.py)\<close>

text \<open>
  A thought is the dictionary built by \<open>_add_thought\<close>. Scores and epoch
  timestamps are Python floats; they are modelled as reals (only comparisons and
  \<open>min\<close> are applied to them). The id, the ISO timestamp and the epoch are read
  from the clock and the random generator, so they come in as a \<open>stamp\<close>.
\<close>

record thought =
  thought_id :: string
  content :: string
  category :: string
  speak_score :: real
  timestamp :: string
  timestamp_epoch :: real
  spoken :: bool

record stamp =
  new_id :: string
  now_iso :: string
  now_epoch :: real

definition MAX_THOUGHTS :: nat where
  "MAX_THOUGHTS = 100"

definition THOUGHT_CATEGORIES :: "(string \<times> real) list" where
  "THOUGHT_CATEGORIES =
     [(''observation'', 0.7), (''analysis'', 0.4), (''opinion'', 0.8), (''plan'', 0.5),
      (''curiosity'', 0.9), (''environmental'', 0.6), (''reflection'', 0.3), (''alert'', 1.0)]"

text \<open>\<open>while len(_THOUGHTS) > _MAX_THOUGHTS: _THOUGHTS.pop(0)\<close>\<close>

function evict :: "thought list \<Rightarrow> thought list" where
  "evict ts = (if length ts > MAX_THOUGHTS then evict (tl ts) else ts)"
  by pat_completeness auto
termination
  by (relation "measure length") auto

declare evict.simps [simp del]

definition make_thought :: "stamp \<Rightarrow> string \<Rightarrow> string \<Rightarrow> real \<Rightarrow> thought" where
  "make_thought s c cat score =
     \<lparr> thought_id = new_id s, content = c, category = cat,
       speak_score = min score 1.0, timestamp = now_iso s,
       timestamp_epoch = now_epoch s, spoken = False \<rparr>"

text \<open>\<open>_add_thought\<close>: returns the new thought and the updated buffer.\<close>

definition add_thought ::
  "stamp \<Rightarrow> string \<Rightarrow> string \<Rightarrow> real \<Rightarrow> thought list \<Rightarrow> thought \<times> thought list" where
  "add_thought s c cat score ts =
     (let t = make_thought s c cat score in (t, evict (ts @ [t])))"

text \<open>Appending a whole sequence of thoughts, one \<open>_add_thought\<close> call each.\<close>

record new_thought =
  nt_stamp :: stamp
  nt_content :: string
  nt_category :: string
  nt_score :: real

definition add_one :: "thought list \<Rightarrow> new_thought \<Rightarrow> thought list" where
  "add_one ts n = snd (add_thought (nt_stamp n) (nt_content n) (nt_category n) (nt_score n) ts)"

definition made :: "new_thought \<Rightarrow> thought" where
  "made n = make_thought (nt_stamp n) (nt_content n) (nt_category n) (nt_score n)"

definition add_all :: "thought list \<Rightarrow> new_thought list \<Rightarrow> thought list" where
  "add_all ts ns = foldl add_one ts ns"

text \<open>\<open>get_speakable_thoughts\<close>; \<open>now\<close> is the clock reading of the call.\<close>

definition get_speakable_thoughts :: "real \<Rightarrow> real \<Rightarrow> thought list \<Rightarrow> thought list" where
  "get_speakable_thoughts now since_seconds ts =
     filter (\<lambda>t. timestamp_epoch t > now - since_seconds \<and> speak_score t > 0.5 \<and> \<not> spoken t) ts"

text \<open>\<open>mark_thought_spoken\<close>: the first entry carrying the id is marked, then the
  loop breaks.\<close>

fun mark_thought_spoken :: "string \<Rightarrow> thought list \<Rightarrow> thought list" where
  "mark_thought_spoken i [] = []"
| "mark_thought_spoken i (t # ts) =
     (if thought_id t = i then t\<lparr>spoken := True\<rparr> # ts else t # mark_thought_spoken i ts)"

section \<open>Python text operations used by the source\<close>

text \<open>
  Python strings are sequences of code points; the model takes the characters of
  \<open>string\<close> as the code points below 256. On these, \<open>str.upper\<close> and
  \<open>str.lower\<close> change the 26 ASCII letters among the ASCII characters, and no
  character above 127 is mapped onto an ASCII prefix used by the source, so the tests
  of the source that compare against ASCII text are decided by the ASCII letter maps.
\<close>

definition py_whitespace :: "char list" where
  "py_whitespace =
     [CHR 0x09, CHR 0x0A, CHR 0x0B, CHR 0x0C, CHR 0x0D, CHR 0x1C, CHR 0x1D, CHR 0x1E,
      CHR 0x1F, CHR 0x20, CHR 0x85, CHR 0xA0]"

definition is_space :: "char \<Rightarrow> bool" where
  "is_space c = (c \<in> set py_whitespace)"

text \<open>\<open>s.strip()\<close>\<close>

definition strip :: "string \<Rightarrow> string" where
  "strip s = rev (dropWhile is_space (rev (dropWhile is_space s)))"

definition upper_char :: "char \<Rightarrow> char" where
  "upper_char c =
     (case map_of (zip ''abcdefghijklmnopqrstuvwxyz'' ''ABCDEFGHIJKLMNOPQRSTUVWXYZ'') c of
        Some u \<Rightarrow> u | None \<Rightarrow> c)"

definition lower_char :: "char \<Rightarrow> char" where
  "lower_char c =
     (case map_of (zip ''ABCDEFGHIJKLMNOPQRSTUVWXYZ'' ''abcdefghijklmnopqrstuvwxyz'') c of
        Some u \<Rightarrow> u | None \<Rightarrow> c)"

definition upper :: "string \<Rightarrow> string" where
  "upper s = map upper_char s"

definition lower :: "string \<Rightarrow> string" where
  "lower s = map lower_char s"

text \<open>\<open>s.startswith(p)\<close>\<close>

definition startswith :: "string \<Rightarrow> string \<Rightarrow> bool" where
  "startswith s p = (take (length p) s = p)"

text \<open>\<open>s.split(d)\<close> for a one-character separator: never an empty list.\<close>

fun split_on :: "char \<Rightarrow> string \<Rightarrow> string list" where
  "split_on d [] = [[]]"
| "split_on d (c # cs) =
     (if c = d then [] # split_on d cs
      else (case split_on d cs of [] \<Rightarrow> [[c]] | l # ls \<Rightarrow> (c # l) # ls))"

text \<open>\<open>line.split(":", 1)[1]\<close>: the text after the first colon. The source reads
  it only on lines whose upper-cased text starts with a prefix ending in a colon, so the
  colon is there and the index is in range.\<close>

definition after_colon :: "string \<Rightarrow> string" where
  "after_colon s = drop 1 (dropWhile (\<lambda>c. c \<noteq> CHR '':'') s)"

text \<open>\<open>sep.join(xs)\<close>\<close>

fun join :: "string \<Rightarrow> string list \<Rightarrow> string" where
  "join sep [] = []"
| "join sep [x] = x"
| "join sep (x # y # ys) = x @ sep @ join sep (y # ys)"

text \<open>\<open>repr\<close> of a string and of a list of strings, as Python prints them inside
  an f-string and as \<open>str(KeyError(msg))\<close> prints its argument.\<close>

definition hex_digit :: "nat \<Rightarrow> char" where
  "hex_digit n = ''0123456789abcdef'' ! (n mod 16)"

definition printable :: "char \<Rightarrow> bool" where
  "printable c =
     (let n = (of_char c :: nat) in (32 \<le> n \<and> n < 127) \<or> (160 < n \<and> n \<noteq> 173))"

definition repr_char :: "char \<Rightarrow> char \<Rightarrow> string" where
  "repr_char q c =
     (if c = q \<or> c = CHR 0x5C then [CHR 0x5C, c]
      else if c = CHR 0x09 then [CHR 0x5C, CHR ''t'']
      else if c = CHR 0x0A then [CHR 0x5C, CHR ''n'']
      else if c = CHR 0x0D then [CHR 0x5C, CHR ''r'']
      else if printable c then [c]
      else [CHR 0x5C, CHR ''x'', hex_digit (of_char c div 16), hex_digit (of_char c)])"

definition py_repr :: "string \<Rightarrow> string" where
  "py_repr s =
     (let q = (if CHR 0x27 \<in> set s \<and> CHR 0x22 \<notin> set s then CHR 0x22 else CHR 0x27)
      in q # concat (map (repr_char q) s) @ [q])"

definition repr_list :: "string list \<Rightarrow> string" where
  "repr_list xs = ''['' @ join '', '' (map py_repr xs) @ '']''"

section \<open>Exceptions, messages and backend replies\<close>

text \<open>
  An exception is a value. \<open>KeyError m\<close> is the exception the registry raises
  with message \<open>m\<close>; \<open>Exception s\<close> stands for any other exception whose
  \<open>str\<close> is \<open>s\<close>.
\<close>

datatype exn = KeyError string | Exception string

fun str_exn :: "exn \<Rightarrow> string" where
  "str_exn (KeyError m) = py_repr m"
| "str_exn (Exception s) = s"

record message =
  role :: string
  msg_content :: string

record 'v tool_call =
  tc_name :: string
  tc_arguments :: "(string \<times> 'v) list option"

record 'v response =
  resp_content :: string
  tool_calls :: "'v tool_call list"

text \<open>JSON-shaped values (parameter schemas).\<close>

datatype json =
  JNull
| JBool bool
| JNum int
| JStr string
| JList "json list"
| JObj "(string \<times> json) list"

record tool_def =
  td_name :: string
  td_description :: string
  td_parameters :: "(string \<times> json) list"

text \<open>
  The reasoning backend is an external service. \<open>_chat(messages, tools)\<close> is a
  function of the request and of the number of queries made before it in the same turn
  (so a backend may answer the same request differently the second time); it returns the
  normalised reply or raises.
\<close>

type_synonym 'v backend = "nat \<Rightarrow> message list \<Rightarrow> tool_def list \<Rightarrow> exn + 'v response"

record config =
  system_prompt :: string
  max_history :: int
  max_concurrent_tools :: int

record brain =
  cfg :: config
  conversation_history :: "message list"
  has_skill_registry :: bool

text \<open>\<open>xs[-k:]\<close> for a positive \<open>k\<close>\<close>

definition last_n :: "nat \<Rightarrow> 'a list \<Rightarrow> 'a list" where
  "last_n k xs = drop (length xs - k) xs"

section \<open>The thought cycle (ThoughtEngine)\<close>

text \<open>
  The engine holds a reference to the brain (or \<open>None\<close>); the brain is passed to
  each cycle as it is at that moment. What a cycle reads from outside comes in as a
  \<open>cycle_env\<close>: the clock, the detection list of the \<open>sentinel.yolo\<close> topic
  (\<open>[]\<close> when the topic or the key is absent), the rest of the sentinel state, and
  the stamp of the thought the cycle may create.
\<close>

record engine =
  cycle_count :: int
  last_context_hash :: string

record ('det, 'o) cycle_env =
  env_time :: string
  env_detections :: "'det list"
  env_other :: 'o
  env_stamp :: stamp

record ('det, 'o) thought_context =
  ctx_cycle :: int
  ctx_time :: string
  ctx_detections :: "'det list"
  ctx_other :: 'o
  ctx_recent_conversation :: "message list option"
  ctx_recent_thoughts :: "string list"

text \<open>
  Python built-ins and the text formatting of the prompt are parameters:
  \<open>py_float\<close> is \<open>float(s)\<close> (\<open>None\<close> for \<open>ValueError\<close>),
  \<open>hash_str\<close> is \<open>str(hash(str(detections)))\<close>, and \<open>render\<close> is the
  prompt text that \<open>_deep_think\<close> builds from the context before its \<open>try\<close>
  block (it may raise there, on a detection without the keys it formats).
\<close>

record ('det, 'o, 'v) services =
  py_float :: "string \<Rightarrow> real option"
  hash_str :: "'det list \<Rightarrow> string"
  render :: "('det, 'o) thought_context \<Rightarrow> exn + string"
  chat :: "'v backend"

definition gather_context ::
  "('det, 'o) cycle_env \<Rightarrow> brain option \<Rightarrow> engine \<Rightarrow> thought list \<Rightarrow> ('det, 'o) thought_context" where
  "gather_context env b e ts =
     \<lparr> ctx_cycle = cycle_count e, ctx_time = env_time env,
       ctx_detections = env_detections env, ctx_other = env_other env,
       ctx_recent_conversation = map_option (\<lambda>br. last_n 5 (conversation_history br)) b,
       ctx_recent_thoughts = map content (last_n 5 ts) \<rparr>"

record parsed =
  p_category :: string
  p_speak_score :: real
  p_thought_text :: string

text \<open>The body of the \<open>for line in content.split("\n")\<close> loop.\<close>

definition parse_line :: "(string \<Rightarrow> real option) \<Rightarrow> parsed \<Rightarrow> string \<Rightarrow> parsed" where
  "parse_line flt p raw =
     (let line = strip raw in
      if startswith (upper line) ''CATEGORY:'' then
        (let cat = lower (strip (after_colon line)) in
         if cat \<in> set (map fst THOUGHT_CATEGORIES) then p\<lparr>p_category := cat\<rparr> else p)
      else if startswith (upper line) ''SPEAK_SCORE:'' then
        (case flt (strip (after_colon line)) of
           Some v \<Rightarrow> p\<lparr>p_speak_score := v\<rparr>
         | None \<Rightarrow> p)
      else if startswith (upper line) ''THOUGHT:'' then
        p\<lparr>p_thought_text := strip (after_colon line)\<rparr>
      else p)"

definition parse_reply :: "(string \<Rightarrow> real option) \<Rightarrow> string \<Rightarrow> parsed" where
  "parse_reply flt c =
     foldl (parse_line flt)
       \<lparr> p_category = ''observation'', p_speak_score = 0.5, p_thought_text = strip c \<rparr>
       (split_on (CHR 0x0A) c)"

text \<open>
  \<open>_deep_think\<close>. \<open>Inl\<close> is an exception that leaves the function (raised while
  the prompt is built); an exception of the backend call is caught inside and leaves the
  buffer as it was.
\<close>

definition deep_think ::
  "('det, 'o, 'v) services \<Rightarrow> stamp \<Rightarrow> brain option \<Rightarrow> ('det, 'o) thought_context \<Rightarrow> thought list
     \<Rightarrow> exn + thought list" where
  "deep_think sv s b ctx ts =
     (case b of
        None \<Rightarrow> Inr ts
      | Some br \<Rightarrow>
          (case render sv ctx of
             Inl x \<Rightarrow> Inl x
           | Inr prompt \<Rightarrow>
               (case chat sv 0
                       [\<lparr>role = ''system'', msg_content = system_prompt (cfg br)\<rparr>,
                        \<lparr>role = ''user'', msg_content = prompt\<rparr>] [] of
                  Inl x \<Rightarrow> Inr ts
                | Inr r \<Rightarrow>
                    (let p = parse_reply (py_float sv) (resp_content r) in
                     if p_thought_text p \<noteq> [] \<and> length (p_thought_text p) > 5
                     then Inr (snd (add_thought s (p_thought_text p) (p_category p)
                                      (p_speak_score p) ts))
                     else Inr ts))))"

text \<open>
  \<open>_run_thought_cycle\<close>: the exception that leaves the cycle (if any), the engine
  and the buffer after it.
\<close>

definition run_thought_cycle ::
  "('det, 'o, 'v) services \<Rightarrow> ('det, 'o) cycle_env \<Rightarrow> brain option \<Rightarrow> engine \<Rightarrow> thought list
     \<Rightarrow> exn option \<times> engine \<times> thought list" where
  "run_thought_cycle sv env b e ts =
     (let ctx = gather_context env b e ts in
      case b of
        None \<Rightarrow> (None, e, ts)
      | Some br \<Rightarrow>
          (let ctx_hash = hash_str sv (ctx_detections ctx) in
           if ctx_hash = last_context_hash e \<and> cycle_count e mod 3 \<noteq> 0 then (None, e, ts)
           else
             (let e' = e\<lparr>last_context_hash := ctx_hash\<rparr> in
              case deep_think sv (env_stamp env) b ctx ts of
                Inl x \<Rightarrow> (Some x, e', ts)
              | Inr ts' \<Rightarrow> (None, e', ts'))))"

text \<open>One pass of the \<open>while self._running\<close> body of \<open>_think_loop\<close>.\<close>

definition think_iteration ::
  "('det, 'o, 'v) services \<Rightarrow> ('det, 'o) cycle_env \<Rightarrow> brain option \<Rightarrow> engine \<Rightarrow> thought list
     \<Rightarrow> engine \<times> thought list" where
  "think_iteration sv env b e ts =
     (case run_thought_cycle sv env b (e\<lparr>cycle_count := cycle_count e + 1\<rparr>) ts of
        (None, e', ts') \<Rightarrow> (e', ts')
      | (Some x, e', ts') \<Rightarrow>
          (e', snd (add_thought (env_stamp env) (''Internal error: '' @ str_exn x)
                      ''alert'' 0.2 ts')))"

section \<open>The free-talk scheduler (core/free\_talk.py)\<close>

text \<open>
  The controller's fields, and what one pass of the \<open>while self._running\<close> body
  of \<open>_talk_loop\<close> reads from outside: the clock at the throttle test, the clock
  inside \<open>get_speakable_thoughts\<close>, the second reading of \<open>_user_speaking\<close>
  (another thread may have set it meanwhile), whether \<open>speak_blocking\<close> raises, and
  the clock after speaking. The sleeps of the loop are not modelled.
\<close>

record free_talk =
  min_interval :: int
  last_spoke :: real
  user_speaking :: bool
  paused :: bool
  has_speaker :: bool

record talk_env =
  time_throttle :: real
  time_filter :: real
  user_speaking_again :: bool
  speak_raises :: "exn option"
  time_spoke :: real

text \<open>\<open>max(xs, key=k)\<close> on a non-empty list \<open>x # xs\<close>: the first maximal
  element.\<close>

fun max_by :: "('a \<Rightarrow> real) \<Rightarrow> 'a \<Rightarrow> 'a list \<Rightarrow> 'a" where
  "max_by k best [] = best"
| "max_by k best (x # xs) = max_by k (if k x > k best then x else best) xs"

text \<open>Where a pass of the loop ends; the thought is the one bound to \<open>best\<close>.\<close>

datatype talk_outcome =
  Suspended
| Throttled
| Nothing_speakable
| Interrupted thought
| No_content thought
| Speak_failed thought exn
| Spoke thought

fun selected :: "talk_outcome \<Rightarrow> thought option" where
  "selected (Interrupted b) = Some b"
| "selected (No_content b) = Some b"
| "selected (Speak_failed b x) = Some b"
| "selected (Spoke b) = Some b"
| "selected _ = None"

definition talk_step ::
  "talk_env \<Rightarrow> free_talk \<Rightarrow> thought list \<Rightarrow> talk_outcome \<times> free_talk \<times> thought list" where
  "talk_step env st ts =
     (if paused st \<or> user_speaking st then (Suspended, st, ts)
      else if time_throttle env - last_spoke st < real_of_int (min_interval st)
      then (Throttled, st, ts)
      else
        (case get_speakable_thoughts (time_filter env) (real_of_int (min_interval st + 10)) ts of
           [] \<Rightarrow> (Nothing_speakable, st, ts)
         | t # rest \<Rightarrow>
             (let best = max_by speak_score t rest in
              if user_speaking_again env then (Interrupted best, st, ts)
              else if content best = [] then (No_content best, st, ts)
              else
                (case (if has_speaker st then speak_raises env else None) of
                   Some x \<Rightarrow> (Speak_failed best x, st, ts)
                 | None \<Rightarrow>
                     (Spoke best, st\<lparr>last_spoke := time_spoke env\<rparr>,
                      mark_thought_spoken (thought_id best) ts)))))"

text \<open>
  The scheduler and the thought engine share the buffer and run side by side; a run of
  the two is a sequence of events, each applied to the controller and the buffer.
\<close>

datatype talk_event =
  Tick talk_env
| Thought_added new_thought
| Notify_user_speaking
| Notify_user_done
| Pause
| Resume

fun apply_event :: "free_talk \<times> thought list \<Rightarrow> talk_event \<Rightarrow> free_talk \<times> thought list" where
  "apply_event (st, ts) (Tick env) = snd (talk_step env st ts)"
| "apply_event (st, ts) (Thought_added n) = (st, add_one ts n)"
| "apply_event (st, ts) Notify_user_speaking = (st\<lparr>user_speaking := True\<rparr>, ts)"
| "apply_event (st, ts) Notify_user_done = (st\<lparr>user_speaking := False\<rparr>, ts)"
| "apply_event (st, ts) Pause = (st\<lparr>paused := True\<rparr>, ts)"
| "apply_event (st, ts) Resume = (st\<lparr>paused := False\<rparr>, ts)"

text \<open>The controller as \<open>__init__\<close> leaves it, with the empty buffer.\<close>

definition talk_init :: "int \<Rightarrow> bool \<Rightarrow> free_talk \<times> thought list" where
  "talk_init mi sp =
     (\<lparr> min_interval = mi, last_spoke = 0, user_speaking = False, paused = False,
        has_speaker = sp \<rparr>, [])"

definition reached :: "int \<Rightarrow> bool \<Rightarrow> talk_event list \<Rightarrow> free_talk \<times> thought list" where
  "reached mi sp evs = foldl apply_event (talk_init mi sp) evs"

text \<open>The eligibility of a thought as the specification words it: recent
  (within \<open>min_interval + 10\<close> seconds), scored above 0.5, not yet spoken.\<close>

definition eligible :: "free_talk \<Rightarrow> talk_env \<Rightarrow> thought \<Rightarrow> bool" where
  "eligible st env t =
     (timestamp_epoch t > time_filter env - real_of_int (min_interval st + 10)
      \<and> speak_score t > 0.5 \<and> \<not> spoken t)"

section \<open>The skill registry (skills/\_\_init\_\_.py)\<close>

text \<open>
  A skill function acts on the world outside the program (files, processes, the network),
  of some type \<open>'w\<close>: called with its keyword arguments it either raises or returns
  a value, given here by its \<open>str\<close> (\<open>None\<close> when it returns \<open>None\<close>), and
  leaves a new world. For a coroutine function, \<open>call\<close> is the coroutine run to its
  end. \<open>iscoroutinefunction\<close> is \<open>inspect.iscoroutinefunction(func)\<close>.
\<close>

record ('v, 'w) callable =
  call :: "(string \<times> 'v) list \<Rightarrow> 'w \<Rightarrow> (exn + string option) \<times> 'w"
  iscoroutinefunction :: bool

record ('v, 'w) skill_info =
  sk_function :: "('v, 'w) callable"
  sk_description :: string
  sk_parameters :: "(string \<times> json) list"
  sk_is_async :: bool

text \<open>
  \<open>_SKILLS\<close> is a dictionary: an association list without repeated keys, in
  insertion order; \<open>AList.update\<close> replaces the value of a key in place and appends a
  new key at the end, as assignment to a Python dictionary does.
\<close>

type_synonym ('v, 'w) skills = "(string \<times> ('v, 'w) skill_info) list"

text \<open>The decorator \<open>skill(name, description, parameters)(func)\<close>.\<close>

definition schema_of :: "(string \<times> json) list option \<Rightarrow> (string \<times> json) list" where
  "schema_of parameters =
     (let default = [(''type'', JStr ''object''), (''properties'', JObj [])];
          params0 = (case parameters of
                       None \<Rightarrow> default
                     | Some p \<Rightarrow> if p = [] then default else p);
          params1 = (if map_of params0 ''type'' = None
                     then AList.update ''type'' (JStr ''object'') params0 else params0)
      in if map_of params1 ''properties'' = None
         then AList.update ''properties'' (JObj []) params1 else params1)"

definition skill_entry ::
  "string \<Rightarrow> (string \<times> json) list option \<Rightarrow> ('v, 'w) callable \<Rightarrow> ('v, 'w) skill_info" where
  "skill_entry description parameters func =
     \<lparr> sk_function = func, sk_description = description,
       sk_parameters = schema_of parameters, sk_is_async = iscoroutinefunction func \<rparr>"

definition skill ::
  "string \<Rightarrow> string \<Rightarrow> (string \<times> json) list option \<Rightarrow> ('v, 'w) callable
     \<Rightarrow> ('v, 'w) skills \<Rightarrow> ('v, 'w) skills" where
  "skill name description parameters func S =
     AList.update name (skill_entry description parameters func) S"

record ('v, 'w) registration =
  reg_name :: string
  reg_description :: string
  reg_parameters :: "(string \<times> json) list option"
  reg_func :: "('v, 'w) callable"

text \<open>The store entry a registration writes.\<close>

definition info_of :: "('v, 'w) registration \<Rightarrow> ('v, 'w) skill_info" where
  "info_of r = skill_entry (reg_description r) (reg_parameters r) (reg_func r)"

definition register :: "('v, 'w) skills \<Rightarrow> ('v, 'w) registration \<Rightarrow> ('v, 'w) skills" where
  "register S r = skill (reg_name r) (reg_description r) (reg_parameters r) (reg_func r) S"

record ('v, 'w) registry =
  SKILLS :: "('v, 'w) skills"
  discovered :: bool

text \<open>
  \<open>discover\<close> imports the modules of the skills package once; the decorators that
  run during these imports are the registrations \<open>pkg\<close>, in import order.
\<close>

definition discover ::
  "('v, 'w) registration list \<Rightarrow> ('v, 'w) registry \<Rightarrow> ('v, 'w) registry" where
  "discover pkg st =
     (if discovered st then st
      else st\<lparr>SKILLS := foldl register (SKILLS st) pkg, discovered := True\<rparr>)"


text \<open>
  What \<open>execute\<close> finds around it: whether an event loop runs in the calling thread
  (\<open>asyncio.get_running_loop()\<close> succeeds), and the \<open>str\<close> of the future that
  \<open>loop.run_in_executor\<close> returns.
\<close>

record runtime =
  running_loop :: bool
  future_text :: string

definition unknown_skill_message :: "string \<Rightarrow> string list \<Rightarrow> string" where
  "unknown_skill_message name available =
     ''Unknown skill: '' @ [CHR 0x27] @ name @ [CHR 0x27] @ ''. Available: ''
       @ repr_list (take 10 available) @ (if length available > 10 then ''...'' else [])"

definition str_or_done :: "string option \<Rightarrow> string" where
  "str_or_done r = (case r of None \<Rightarrow> ''Done.'' | Some s \<Rightarrow> s)"

text \<open>
  \<open>SkillRegistry.execute\<close>: \<open>Inl\<close> is the exception raised to the caller. With a
  coroutine skill and a running loop the coroutine is handed to a thread pool; leaving the
  \<open>with\<close> block waits for it, whatever it raised stays inside the future, and the
  \<open>str\<close> of the future is returned.
\<close>

definition execute ::
  "('v, 'w) registration list \<Rightarrow> runtime \<Rightarrow> string \<Rightarrow> (string \<times> 'v) list option
     \<Rightarrow> ('v, 'w) registry \<Rightarrow> 'w \<Rightarrow> (exn + string) \<times> ('v, 'w) registry \<times> 'w" where
  "execute pkg rt name arguments st w =
     (let st1 = discover pkg st in
      case map_of (SKILLS st1) name of
        None \<Rightarrow> (Inl (KeyError (unknown_skill_message name (map fst (SKILLS st1)))), st1, w)
      | Some info \<Rightarrow>
          (let func = sk_function info;
               args = (case arguments of None \<Rightarrow> [] | Some a \<Rightarrow> a)
           in if sk_is_async info then
                (if running_loop rt
                 then (case call func args w of (r, w') \<Rightarrow> (Inr (future_text rt), st1, w'))
                 else (case call func args w of
                         (Inl x, w') \<Rightarrow> (Inl x, st1, w')
                       | (Inr r, w') \<Rightarrow> (Inr (str_or_done r), st1, w')))
              else (case call func args w of
                      (Inl x, w') \<Rightarrow> (Inl x, st1, w')
                    | (Inr r, w') \<Rightarrow> (Inr (str_or_done r), st1, w'))))"

section \<open>The orchestrator (core/brain.py)\<close>

record tool_result =
  tool :: string
  result :: string
  success :: bool

text \<open>
  What a turn of the brain reads from outside: the backend, the registrations of the
  skills package, the runtime around \<open>execute\<close>, and the text that
  \<open>_build_messages\<close> appends to the system prompt (user memory and live sensor
  data).
\<close>

record ('v, 'w) surroundings =
  backend :: "'v backend"
  package :: "('v, 'w) registration list"
  rt_env :: runtime
  system_extra :: string

text \<open>
  \<open>Brain._execute_tool_calls\<close>. The body of its \<open>for\<close> loop handles one
  call: it appends one result and goes on to the next call, also when
  \<open>execute\<close> raised.
\<close>

definition dispatch_one ::
  "('v, 'w) surroundings \<Rightarrow> brain \<Rightarrow> 'v tool_call \<Rightarrow> ('v, 'w) registry \<Rightarrow> 'w
     \<Rightarrow> tool_result \<times> ('v, 'w) registry \<times> 'w" where
  "dispatch_one sr b c st w =
     (if \<not> has_skill_registry b then
        (\<lparr>tool = tc_name c, result = ''No skill registry.'', success = False\<rparr>, st, w)
      else
        (case execute (package sr) (rt_env sr) (tc_name c) (tc_arguments c) st w of
           (Inr output, st1, w1) \<Rightarrow>
             (\<lparr>tool = tc_name c, result = output, success = True\<rparr>, st1, w1)
         | (Inl x, st1, w1) \<Rightarrow>
             (\<lparr>tool = tc_name c, result = ''Error: '' @ tc_name c @ '': '' @ str_exn x,
               success = False\<rparr>, st1, w1)))"

text \<open>The loop: the results in the order of the calls, the registry and the world
  after the last call.\<close>

fun execute_tool_calls ::
  "('v, 'w) surroundings \<Rightarrow> brain \<Rightarrow> 'v tool_call list \<Rightarrow> ('v, 'w) registry \<Rightarrow> 'w
     \<Rightarrow> tool_result list \<times> ('v, 'w) registry \<times> 'w" where
  "execute_tool_calls sr b [] st w = ([], st, w)"
| "execute_tool_calls sr b (c # cs) st w =
     (case dispatch_one sr b c st w of
        (r, st1, w1) \<Rightarrow>
          (case execute_tool_calls sr b cs st1 w1 of
             (rs, st', w') \<Rightarrow> (r # rs, st', w')))"
















section \<open>The event bus (core/event\_bus.py)\<close>

text \<open>
  \<open>_subscribers\<close> is a \<open>defaultdict(list)\<close>: a function from topics to handler
  lists, empty for a topic nobody subscribed to. \<open>_state\<close> holds the latest payload
  of each topic. Handlers are values of some type \<open>'h\<close>; what happens when
  \<open>publish\<close> evaluates \<open>asyncio.create_task(handler(data))\<close> for a handler is
  given by \<open>start\<close>: either the expression raises, or a task is scheduled on the event
  loop (of some type \<open>'c\<close>). The task runs later, outside \<open>publish\<close>.
\<close>

record ('d, 'h) event_bus =
  subscribers :: "string \<Rightarrow> 'h list"
  state :: "string \<rightharpoonup> 'd"

record ('d, 'h, 'c) published =
  bus_after :: "('d, 'h) event_bus"
  scheduled :: "'c list"
  logged :: "string list"

definition subscribe :: "string \<Rightarrow> 'h \<Rightarrow> ('d, 'h) event_bus \<Rightarrow> ('d, 'h) event_bus" where
  "subscribe topic handler bus =
     bus\<lparr>subscribers := (subscribers bus)(topic := subscribers bus topic @ [handler])\<rparr>"

definition unsubscribe :: "string \<Rightarrow> 'h \<Rightarrow> ('d, 'h) event_bus \<Rightarrow> ('d, 'h) event_bus" where
  "unsubscribe topic handler bus =
     (if handler \<in> set (subscribers bus topic)
      then bus\<lparr>subscribers := (subscribers bus)(topic := remove1 handler (subscribers bus topic))\<rparr>
      else bus)"

definition handler_error :: "string \<Rightarrow> exn \<Rightarrow> string" where
  "handler_error topic e =
     ''Handler error on '' @ [CHR 0x27] @ topic @ [CHR 0x27] @ '': '' @ str_exn e"

text \<open>The \<open>for handler in ...\<close> loop of \<open>publish\<close>: the tasks scheduled and the
  lines logged, in order.\<close>

fun notify ::
  "('h \<Rightarrow> 'd \<Rightarrow> exn + 'c) \<Rightarrow> string \<Rightarrow> 'd \<Rightarrow> 'h list \<Rightarrow> 'c list \<times> string list" where
  "notify start topic data [] = ([], [])"
| "notify start topic data (h # hs) =
     (case start h data of
        Inr c \<Rightarrow> (case notify start topic data hs of (cs, lg) \<Rightarrow> (c # cs, lg))
      | Inl e \<Rightarrow> (case notify start topic data hs of (cs, lg) \<Rightarrow> (cs, handler_error topic e # lg)))"

definition publish ::
  "('h \<Rightarrow> 'd \<Rightarrow> exn + 'c) \<Rightarrow> string \<Rightarrow> 'd \<Rightarrow> ('d, 'h) event_bus \<Rightarrow> ('d, 'h, 'c) published" where
  "publish start topic data bus =
     (let bus1 = bus\<lparr>state := (state bus)(topic \<mapsto> data)\<rparr> in
      case notify start topic data (subscribers bus1 topic) of
        (cs, lg) \<Rightarrow> \<lparr> bus_after = bus1, scheduled = cs, logged = lg \<rparr>)"

definition get_state :: "string \<Rightarrow> ('d, 'h) event_bus \<Rightarrow> 'd option" where
  "get_state topic bus = state bus topic"

section \<open>Sample inputs\<close>

definition sample_new :: "nat \<Rightarrow> new_thought" where
  "sample_new k =
     \<lparr> nt_stamp = \<lparr> new_id = ''t_120000_500'', now_iso = ''2025-01-01T12:00:00'',
                    now_epoch = real k \<rparr>,
       nt_content = ''thought'', nt_category = ''observation'', nt_score = 0.5 \<rparr>"

text \<open>
  A sample \<open>float\<close>: Python's \<open>float\<close> on signed decimal literals such as
  \<open>0.9\<close> or \<open>-0.3\<close>; it is used on such literals only.
\<close>

definition digit_val :: "char \<Rightarrow> nat option" where
  "digit_val c = map_of (zip ''0123456789'' [0, 1, 2, 3, 4, 5, 6, 7, 8, 9]) c"

fun digits_val :: "nat \<Rightarrow> string \<Rightarrow> nat option" where
  "digits_val acc [] = Some acc"
| "digits_val acc (c # cs) =
     (case digit_val c of None \<Rightarrow> None | Some d \<Rightarrow> digits_val (10 * acc + d) cs)"

definition dec_float :: "string \<Rightarrow> real option" where
  "dec_float s =
     (let neg = (take 1 s = ''-'');
          body = (if take 1 s = ''-'' \<or> take 1 s = ''+'' then drop 1 s else s);
          ip = takeWhile (\<lambda>c. c \<noteq> CHR ''.'') body;
          fp = drop 1 (dropWhile (\<lambda>c. c \<noteq> CHR ''.'') body)
      in if ip = [] \<and> fp = [] then None
         else (case (digits_val 0 ip, digits_val 0 fp) of
                 (Some i, Some f) \<Rightarrow>
                   Some ((if neg then - 1 else 1) * (real i + real f / 10 ^ length fp))
               | _ \<Rightarrow> None))"

definition sample_cfg :: config where
  "sample_cfg = \<lparr> system_prompt = ''You are Max.'', max_history = 10, max_concurrent_tools = 5 \<rparr>"

definition sample_brain :: brain where
  "sample_brain = \<lparr> cfg = sample_cfg, conversation_history = [], has_skill_registry = True \<rparr>"

definition sample_stamp :: stamp where
  "sample_stamp = \<lparr> new_id = ''t_120000_500'', now_iso = ''2025-01-01T12:00:00'', now_epoch = 1000 \<rparr>"

definition sample_env :: "(string, unit) cycle_env" where
  "sample_env = \<lparr> env_time = ''12:00:00'', env_detections = [''person''], env_other = (),
                  env_stamp = sample_stamp \<rparr>"

text \<open>A thought-cycle backend that answers every request with the given text.\<close>

definition replying :: "string \<Rightarrow> (string, unit, unit) services" where
  "replying txt =
     \<lparr> py_float = dec_float, hash_str = concat,
       render = (\<lambda>c. Inr ''[AUTONOMOUS THOUGHT CYCLE]''),
       chat = (\<lambda>n msgs tools. Inr \<lparr> resp_content = txt, tool_calls = [] \<rparr>) \<rparr>"

definition short_reply :: string where
  "short_reply = ''CATEGORY: alert'' @ [CHR 0x0A] @ ''SPEAK_SCORE: 0.9'' @ [CHR 0x0A] @ ''THOUGHT: hi''"

definition negative_reply :: string where
  "negative_reply =
     ''CATEGORY: observation'' @ [CHR 0x0A] @ ''SPEAK_SCORE: -0.3'' @ [CHR 0x0A]
       @ ''THOUGHT: The room is quiet.''"

definition quiet_thought :: thought where
  "quiet_thought = make_thought sample_stamp ''The room is quiet.'' ''observation'' (- 0.3)"

text \<open>Two thoughts created at the same second of the day, one day apart, for which
  \<open>random.randint(100, 999)\<close> returned the same number: they carry the same id.\<close>

definition old_new :: new_thought where
  "old_new =
     \<lparr> nt_stamp = \<lparr> new_id = ''t_120000_500'', now_iso = ''2025-01-01T12:00:00'',
                    now_epoch = 1000 \<rparr>,
       nt_content = ''Old thought.'', nt_category = ''opinion'', nt_score = 0.9 \<rparr>"

definition fresh_new :: new_thought where
  "fresh_new =
     \<lparr> nt_stamp = \<lparr> new_id = ''t_120000_500'', now_iso = ''2025-01-02T12:00:00'',
                    now_epoch = 87400 \<rparr>,
       nt_content = ''Fresh thought.'', nt_category = ''opinion'', nt_score = 0.9 \<rparr>"

definition day2_env :: talk_env where
  "day2_env = \<lparr> time_throttle = 87410, time_filter = 87410, user_speaking_again = False,
                 speak_raises = None, time_spoke = 87412 \<rparr>"

text \<open>Two recent thoughts with different ids and scores.\<close>

definition mild_new :: new_thought where
  "mild_new =
     \<lparr> nt_stamp = \<lparr> new_id = ''t_120000_101'', now_iso = ''2025-01-01T12:00:00'',
                    now_epoch = 1000 \<rparr>,
       nt_content = ''A mild thought.'', nt_category = ''observation'', nt_score = 0.7 \<rparr>"

definition keen_new :: new_thought where
  "keen_new =
     \<lparr> nt_stamp = \<lparr> new_id = ''t_120001_202'', now_iso = ''2025-01-01T12:00:01'',
                    now_epoch = 1001 \<rparr>,
       nt_content = ''A keen thought.'', nt_category = ''curiosity'', nt_score = 0.9 \<rparr>"

definition day1_env :: talk_env where
  "day1_env = \<lparr> time_throttle = 1010, time_filter = 1010, user_speaking_again = False,
                 speak_raises = None, time_spoke = 1012 \<rparr>"

text \<open>
  Sample skills. The world is the log of the skill functions that ran, in order.
\<close>

definition returning :: "string \<Rightarrow> string \<Rightarrow> (unit, string list) callable" where
  "returning tag out =
     \<lparr> call = (\<lambda>args w. (Inr (Some out), w @ [tag])), iscoroutinefunction = False \<rparr>"

definition raising :: "string \<Rightarrow> string \<Rightarrow> bool \<Rightarrow> (unit, string list) callable" where
  "raising tag msg co =
     \<lparr> call = (\<lambda>args w. (Inl (Exception msg), w @ [tag])), iscoroutinefunction = co \<rparr>"

definition no_loop :: runtime where
  "no_loop = \<lparr> running_loop = False, future_text = [] \<rparr>"

definition in_loop :: runtime where
  "in_loop = \<lparr> running_loop = True, future_text = ''<Future pending>'' \<rparr>"

definition empty_registry :: "(unit, string list) registry" where
  "empty_registry = \<lparr> SKILLS = [], discovered = True \<rparr>"

definition ping_twice :: "(unit, string list) registry" where
  "ping_twice =
     \<lparr> SKILLS = skill ''ping'' ''Second ping.'' None (returning ''ping2'' ''new'')
                  (foldl register
                     (skill ''ping'' ''First ping.'' None (returning ''ping1'' ''old'') []) []),
       discovered = True \<rparr>"

text \<open>A backend that plays a script: reply \<open>i\<close> to query \<open>i\<close>, and a
  refused connection after the script has ended.\<close>

definition scripted :: "unit response list \<Rightarrow> unit backend" where
  "scripted rs =
     (\<lambda>i msgs tools. if i < length rs then Inr (rs ! i) else Inl (Exception ''connection refused''))"

definition around :: "unit backend \<Rightarrow> runtime \<Rightarrow> (unit, string list) surroundings" where
  "around chat_fn rn = \<lparr> backend = chat_fn, package = [], rt_env = rn, system_extra = [] \<rparr>"

definition calling :: "string \<Rightarrow> unit tool_call" where
  "calling n = \<lparr> tc_name = n, tc_arguments = None \<rparr>"


text \<open>A registry with a skill that returns, one that raises, and a coroutine skill
  that raises.\<close>

definition tool_registry :: "(unit, string list) registry" where
  "tool_registry =
     \<lparr> SKILLS =
         skill ''afail'' ''Raises, coroutine.'' None (raising ''afail'' ''boom'' True)
           (skill ''fail'' ''Raises.'' None (raising ''fail'' ''boom'' False)
              (skill ''ping'' ''Returns pong.'' None (returning ''ping'' ''pong'') [])),
       discovered = True \<rparr>"



text \<open>A bus with three handlers on one topic; starting the second one raises.\<close>

definition sample_start :: "string \<Rightarrow> nat \<Rightarrow> exn + string \<times> nat" where
  "sample_start h d = (if h = ''bad'' then Inl (Exception ''boom'') else Inr (h, d))"

definition sample_bus :: "(nat, string) event_bus" where
  "sample_bus =
     subscribe ''sentinel.yolo'' ''late''
       (subscribe ''sentinel.yolo'' ''bad''
          (subscribe ''sentinel.yolo'' ''early''
             \<lparr> subscribers = (\<lambda>t. []), state = Map.empty \<rparr>))"

text \<open>
  Handlers as the bus's type \<open>Handler\<close> has them, coroutine functions:
  \<open>handler(data)\<close> only builds the coroutine and \<open>create_task\<close> schedules it,
  so starting never raises. A scheduled task is given with what its body does once the
  event loop runs it: \<open>None\<close> when it returns, \<open>Some e\<close> when it raises
  \<open>e\<close>. The body of the second handler raises.
\<close>

definition coroutine_start :: "string \<Rightarrow> nat \<Rightarrow> exn + string \<times> exn option" where
  "coroutine_start h d = Inr (h, if h = ''bad'' then Some (Exception ''boom'') else None)"

section \<open>Properties of the buffer\<close>

lemma evict_drop: "evict ts = drop (length ts - MAX_THOUGHTS) ts"
proof (induction ts rule: evict.induct)
  case (1 ts)
  show ?case
  proof (cases "length ts > MAX_THOUGHTS")
    case True
    then obtain x xs where ts: "ts = x # xs" by (cases ts) auto
    from True ts have k: "length ts - MAX_THOUGHTS = Suc (length xs - MAX_THOUGHTS)" by simp
    have "evict ts = evict xs" using True ts by (simp add: evict.simps [of "x # xs"])
    also have "\<dots> = drop (length xs - MAX_THOUGHTS) xs" using 1 True ts by simp
    also have "\<dots> = drop (length ts - MAX_THOUGHTS) ts" unfolding k using ts by simp
    finally show ?thesis .
  next
    case False
    then show ?thesis by (simp add: evict.simps [of ts])
  qed
qed

lemma add_one_eq: "add_one ts n = drop (Suc (length ts) - MAX_THOUGHTS) (ts @ [made n])"
  by (simp add: add_one_def add_thought_def made_def evict_drop Let_def)

lemma add_one_length: "length (add_one ts n) \<le> MAX_THOUGHTS"
  by (simp add: add_one_eq)

lemma drop_step:
  "drop (Suc (length (drop (length A - MAX_THOUGHTS) A)) - MAX_THOUGHTS)
        (drop (length A - MAX_THOUGHTS) A @ [y])
   = drop (Suc (length A) - MAX_THOUGHTS) (A @ [y])"
proof (cases "length A \<le> MAX_THOUGHTS")
  case True
  then show ?thesis by simp
next
  case False
  then have gt: "length A > MAX_THOUGHTS" by simp
  then have len: "length (drop (length A - MAX_THOUGHTS) A) = MAX_THOUGHTS" by simp
  have k: "Suc (length A) - MAX_THOUGHTS = Suc (length A - MAX_THOUGHTS)" using gt by simp
  have pos: "0 < MAX_THOUGHTS" by (simp add: MAX_THOUGHTS_def)
  have "drop (Suc MAX_THOUGHTS - MAX_THOUGHTS) (drop (length A - MAX_THOUGHTS) A @ [y])
        = drop 1 (drop (length A - MAX_THOUGHTS) A) @ [y]"
    using len by (simp add: MAX_THOUGHTS_def)
  also have "\<dots> = drop (Suc (length A - MAX_THOUGHTS)) A @ [y]" by simp
  also have "\<dots> = drop (Suc (length A - MAX_THOUGHTS)) (A @ [y])" using gt by (simp add: MAX_THOUGHTS_def)
  finally show ?thesis unfolding len k .
qed

lemma add_all_eq:
  "add_all ts ns =
     (if ns = [] then ts
      else drop (length ts + length ns - MAX_THOUGHTS) (ts @ map made ns))"
proof (induction ns arbitrary: ts rule: rev_induct)
  case Nil
  then show ?case by (simp add: add_all_def)
next
  case (snoc n ns)
  show ?case
  proof (cases "ns = []")
    case True
    then show ?thesis by (simp add: add_all_def add_one_eq)
  next
    case False
    have "add_all ts (ns @ [n]) = add_one (add_all ts ns) n"
      by (simp add: add_all_def)
    also have "\<dots> = add_one (drop (length (ts @ map made ns) - MAX_THOUGHTS) (ts @ map made ns)) n"
      using snoc False by simp
    also have "\<dots> = drop (Suc (length (ts @ map made ns)) - MAX_THOUGHTS) ((ts @ map made ns) @ [made n])"
      unfolding add_one_eq by (rule drop_step)
    finally show ?thesis by simp
  qed
qed

text \<open>
  Claim C4. The buffer never holds more than 100 entries: every \<open>_add_thought\<close>
  leaves at most 100 (from any buffer), marking a thought spoken keeps the length, and
  a run of appends from the empty buffer stays within 100. Eviction drops the oldest
  first: after appending any 150 thoughts, to any buffer, exactly the last 100 of
  them remain, in the order they were appended.
\<close>

theorem thought_buffer_bounded_fifo:
  "MAX_THOUGHTS = 100
   \<and> length (add_one ts n) \<le> 100
   \<and> length (mark_thought_spoken i ts) = length ts
   \<and> length (add_all [] ns) \<le> 100
   \<and> (length ns = 150 \<longrightarrow> add_all ts ns = map made (drop 50 ns))"
proof -
  have m: "MAX_THOUGHTS = 100" by (simp add: MAX_THOUGHTS_def)
  have a: "length (add_one ts n) \<le> 100" using add_one_length [of ts n] m by simp
  have b: "length (mark_thought_spoken i ts) = length ts" by (induction ts) auto
  have c: "length (add_all [] ns) \<le> 100" by (auto simp: add_all_eq m)
  have d: "add_all ts ns = map made (drop 50 ns)" if "length ns = 150"
  proof -
    from that have ne: "ns \<noteq> []" by auto
    have "add_all ts ns = drop (length ts + 50) (ts @ map made ns)"
      using ne that by (simp add: add_all_eq m)
    also have "\<dots> = drop 50 (map made ns)" by simp
    finally show ?thesis by (simp add: drop_map)
  qed
  from m a b c d show ?thesis by blast
qed

theorem thought_buffer_bounded_fifo_witness:
  "length (map sample_new [0..<150]) = 150
   \<and> add_all [] (map sample_new [0..<150]) = map made (drop 50 (map sample_new [0..<150]))"
  using thought_buffer_bounded_fifo [of "[]" "sample_new 0" "[]" "map sample_new [0..<150]"]
  by simp

section \<open>Properties of the thought cycle\<close>

lemmas text_simps =
  strip_def is_space_def py_whitespace_def upper_def upper_char_def lower_def lower_char_def
  startswith_def after_colon_def

lemma parse_short:
  "parse_reply dec_float short_reply =
     \<lparr> p_category = ''alert'', p_speak_score = 0.9, p_thought_text = ''hi'' \<rparr>"
  by (simp add: parse_reply_def short_reply_def parse_line_def text_simps
        THOUGHT_CATEGORIES_def dec_float_def digit_val_def Let_def)

lemma parse_negative:
  "parse_reply dec_float negative_reply =
     \<lparr> p_category = ''observation'', p_speak_score = - 0.3,
       p_thought_text = ''The room is quiet.'' \<rparr>"
  by (simp add: parse_reply_def negative_reply_def parse_line_def text_simps
        THOUGHT_CATEGORIES_def dec_float_def digit_val_def Let_def)

lemma deep_think_reply:
  assumes "render sv c = Inr prompt"
    and "chat sv 0 [\<lparr>role = ''system'', msg_content = system_prompt (cfg br)\<rparr>,
                    \<lparr>role = ''user'', msg_content = prompt\<rparr>] [] = Inr r"
  shows "deep_think sv s (Some br) c ts =
           (let p = parse_reply (py_float sv) (resp_content r) in
            if length (p_thought_text p) > 5
            then Inr (snd (add_thought s (p_thought_text p) (p_category p) (p_speak_score p) ts))
            else Inr ts)"
  using assms by (auto simp: deep_think_def Let_def)

lemma cycle_skip:
  assumes "hash_str sv (env_detections env) = last_context_hash e"
    and "cycle_count e mod 3 \<noteq> 0"
  shows "run_thought_cycle sv env (Some br) e ts = (None, e, ts)"
  using assms by (simp add: run_thought_cycle_def gather_context_def Let_def)

lemma cycle_proceed:
  assumes "hash_str sv (env_detections env) \<noteq> last_context_hash e \<or> cycle_count e mod 3 = 0"
  shows "run_thought_cycle sv env (Some br) e ts =
           (case deep_think sv (env_stamp env) (Some br) (gather_context env (Some br) e ts) ts of
              Inl x \<Rightarrow> (Some x, e\<lparr>last_context_hash := hash_str sv (env_detections env)\<rparr>, ts)
            | Inr ts' \<Rightarrow> (None, e\<lparr>last_context_hash := hash_str sv (env_detections env)\<rparr>, ts'))"
  using assms by (auto simp: run_thought_cycle_def gather_context_def Let_def)

lemma cycle_engine:
  "fst (snd (run_thought_cycle sv env (Some br) e ts)) =
     e\<lparr>last_context_hash := hash_str sv (env_detections env)\<rparr>"
proof (cases "hash_str sv (env_detections env) = last_context_hash e \<and> cycle_count e mod 3 \<noteq> 0")
  case True
  then show ?thesis by (simp add: cycle_skip)
next
  case False
  then have "hash_str sv (env_detections env) \<noteq> last_context_hash e \<or> cycle_count e mod 3 = 0"
    by blast
  then show ?thesis by (simp add: cycle_proceed split: sum.split)
qed

lemma iteration_engine:
  "fst (think_iteration sv env (Some br) e ts) =
     \<lparr> cycle_count = cycle_count e + 1, last_context_hash = hash_str sv (env_detections env) \<rparr>"
proof -
  obtain x e' ts' where r: "run_thought_cycle sv env (Some br) (e\<lparr>cycle_count := cycle_count e + 1\<rparr>) ts = (x, e', ts')"
    by (metis prod_cases3)
  have "e' = (e\<lparr>cycle_count := cycle_count e + 1\<rparr>)\<lparr>last_context_hash := hash_str sv (env_detections env)\<rparr>"
    using cycle_engine [of sv env br "e\<lparr>cycle_count := cycle_count e + 1\<rparr>" ts] r by simp
  then show ?thesis using r by (simp add: think_iteration_def split: option.split)
qed

text \<open>
  Claim C10. A cycle that reaches the parse with a thought text of at most 5 characters
  (the empty text included) stores nothing: \<open>_deep_think\<close> returns with the
  buffer as it was, and so does the whole pass of the loop. A reply with a valid
  category and score and the thought text \<open>hi\<close> is dropped all the same.
\<close>

theorem short_thought_text_discarded:
  assumes "render sv (gather_context env (Some br) (e\<lparr>cycle_count := cycle_count e + 1\<rparr>) ts) = Inr prompt"
    and "chat sv 0 [\<lparr>role = ''system'', msg_content = system_prompt (cfg br)\<rparr>,
                    \<lparr>role = ''user'', msg_content = prompt\<rparr>] [] = Inr r"
    and "length (p_thought_text (parse_reply (py_float sv) (resp_content r))) \<le> 5"
  shows "deep_think sv (env_stamp env) (Some br)
           (gather_context env (Some br) (e\<lparr>cycle_count := cycle_count e + 1\<rparr>) ts) ts = Inr ts
         \<and> snd (think_iteration sv env (Some br) e ts) = ts"
proof -
  let ?e = "e\<lparr>cycle_count := cycle_count e + 1\<rparr>"
  let ?c = "gather_context env (Some br) ?e ts"
  have d: "deep_think sv (env_stamp env) (Some br) ?c ts = Inr ts"
    using deep_think_reply [OF assms(1) assms(2)] assms(3) by (simp add: Let_def)
  have "snd (snd (run_thought_cycle sv env (Some br) ?e ts)) = ts
        \<and> fst (run_thought_cycle sv env (Some br) ?e ts) = None"
  proof (cases "hash_str sv (env_detections env) = last_context_hash ?e \<and> cycle_count ?e mod 3 \<noteq> 0")
    case True
    then show ?thesis by (simp add: cycle_skip)
  next
    case False
    then have "hash_str sv (env_detections env) \<noteq> last_context_hash ?e \<or> cycle_count ?e mod 3 = 0"
      by blast
    then show ?thesis using d by (simp add: cycle_proceed)
  qed
  then have "snd (think_iteration sv env (Some br) e ts) = ts"
    by (cases "run_thought_cycle sv env (Some br) ?e ts") (auto simp: think_iteration_def)
  with d show ?thesis by simp
qed


theorem short_thought_text_discarded_witness:
  "parse_reply dec_float short_reply =
     \<lparr> p_category = ''alert'', p_speak_score = 0.9, p_thought_text = ''hi'' \<rparr>
   \<and> snd (think_iteration (replying short_reply) sample_env (Some sample_brain)
            \<lparr>cycle_count = 2, last_context_hash = []\<rparr> [made (sample_new 0)])
       = [made (sample_new 0)]"
proof -
  have r: "render (replying short_reply)
             (gather_context sample_env (Some sample_brain)
                (\<lparr>cycle_count = 2, last_context_hash = []\<rparr>
                   \<lparr>cycle_count := cycle_count \<lparr>cycle_count = 2, last_context_hash = []\<rparr> + 1\<rparr>)
                [made (sample_new 0)])
           = Inr ''[AUTONOMOUS THOUGHT CYCLE]''"
    by (simp add: replying_def)
  have c: "chat (replying short_reply) 0
             [\<lparr>role = ''system'', msg_content = system_prompt (cfg sample_brain)\<rparr>,
              \<lparr>role = ''user'', msg_content = ''[AUTONOMOUS THOUGHT CYCLE]''\<rparr>] []
           = Inr \<lparr> resp_content = short_reply, tool_calls = [] \<rparr>"
    by (simp add: replying_def)
  have l: "length (p_thought_text (parse_reply (py_float (replying short_reply))
              (resp_content \<lparr> resp_content = short_reply, tool_calls = ([] :: unit tool_call list) \<rparr>))) \<le> 5"
    by (simp add: replying_def parse_short)
  from short_thought_text_discarded [OF r c l] parse_short show ?thesis by simp
qed

lemma stored_score: "speak_score (fst (add_thought s c cat x ts)) = min x 1"
  by (simp add: add_thought_def make_thought_def Let_def)

text \<open>
  Claim C8 (fails on the code). \<open>_add_thought\<close> stores \<open>min(speak_score, 1.0)\<close>:
  the score is bounded above only. A reply with \<open>SPEAK_SCORE: -0.3\<close> is parsed by
  \<open>float\<close> and stored as \<open>-0.3\<close>, below the interval.
\<close>

theorem negative_score_stored:
  "map speak_score
     (snd (think_iteration (replying negative_reply) sample_env (Some sample_brain)
             \<lparr>cycle_count = 0, last_context_hash = []\<rparr> []))
   = [- 0.3]
   \<and> speak_score (fst (add_thought sample_stamp ''The room is quiet.'' ''observation'' (- 0.3) [])) < 0"
proof -
  let ?sv = "replying negative_reply"
  let ?e = "\<lparr>cycle_count = 0, last_context_hash = []\<rparr>\<lparr>cycle_count := cycle_count \<lparr>cycle_count = 0, last_context_hash = []\<rparr> + 1\<rparr>"
  let ?c = "gather_context sample_env (Some sample_brain) ?e []"
  have r: "render ?sv ?c = Inr ''[AUTONOMOUS THOUGHT CYCLE]''"
    by (simp add: replying_def)
  have c: "chat ?sv 0
             [\<lparr>role = ''system'', msg_content = system_prompt (cfg sample_brain)\<rparr>,
              \<lparr>role = ''user'', msg_content = ''[AUTONOMOUS THOUGHT CYCLE]''\<rparr>] []
           = Inr \<lparr> resp_content = negative_reply, tool_calls = [] \<rparr>"
    by (simp add: replying_def)
  have p: "parse_reply (py_float ?sv) negative_reply =
     \<lparr> p_category = ''observation'', p_speak_score = - 0.3,
       p_thought_text = ''The room is quiet.'' \<rparr>"
    using parse_negative by (simp add: replying_def)
  have d: "deep_think ?sv (env_stamp sample_env) (Some sample_brain) ?c []
         = Inr (snd (add_thought sample_stamp ''The room is quiet.'' ''observation'' (- 0.3) []))"
    using deep_think_reply [OF r c] p by (simp add: Let_def sample_env_def)
  have h: "hash_str ?sv (env_detections sample_env) \<noteq> last_context_hash ?e \<or> cycle_count ?e mod 3 = 0"
    by (simp add: replying_def sample_env_def)
  have "snd (think_iteration ?sv sample_env (Some sample_brain) \<lparr>cycle_count = 0, last_context_hash = []\<rparr> [])
        = snd (add_thought sample_stamp ''The room is quiet.'' ''observation'' (- 0.3) [])"
    using cycle_proceed [OF h, of sample_brain "[]"] d by (simp add: think_iteration_def)
  moreover have "snd (add_thought sample_stamp ''The room is quiet.'' ''observation'' (- 0.3) [])
        = [make_thought sample_stamp ''The room is quiet.'' ''observation'' (- 0.3)]"
    by (simp add: add_thought_def Let_def evict_drop MAX_THOUGHTS_def)
  ultimately show ?thesis by (simp add: make_thought_def stored_score)
qed


lemma sample_iteration:
  "think_iteration (replying negative_reply) sample_env (Some sample_brain) e ts =
     (if last_context_hash e = ''person'' \<and> (cycle_count e + 1) mod 3 \<noteq> 0
      then (e\<lparr>cycle_count := cycle_count e + 1\<rparr>, ts)
      else (\<lparr>cycle_count = cycle_count e + 1, last_context_hash = ''person''\<rparr>,
            snd (add_thought sample_stamp ''The room is quiet.'' ''observation'' (- 0.3) ts)))"
proof -
  let ?sv = "replying negative_reply"
  let ?e = "e\<lparr>cycle_count := cycle_count e + 1\<rparr>"
  let ?c = "gather_context sample_env (Some sample_brain) ?e ts"
  have hs: "hash_str ?sv (env_detections sample_env) = ''person''"
    by (simp add: replying_def sample_env_def)
  show ?thesis
  proof (cases "last_context_hash e = ''person'' \<and> (cycle_count e + 1) mod 3 \<noteq> 0")
    case True
    then have "run_thought_cycle ?sv sample_env (Some sample_brain) ?e ts = (None, ?e, ts)"
      using hs by (intro cycle_skip) simp_all
    with True show ?thesis by (simp add: think_iteration_def)
  next
    case False
    have r: "render ?sv ?c = Inr ''[AUTONOMOUS THOUGHT CYCLE]''"
      by (simp add: replying_def)
    have c: "chat ?sv 0
               [\<lparr>role = ''system'', msg_content = system_prompt (cfg sample_brain)\<rparr>,
                \<lparr>role = ''user'', msg_content = ''[AUTONOMOUS THOUGHT CYCLE]''\<rparr>] []
             = Inr \<lparr> resp_content = negative_reply, tool_calls = [] \<rparr>"
      by (simp add: replying_def)
    have p: "parse_reply (py_float ?sv) negative_reply =
       \<lparr> p_category = ''observation'', p_speak_score = - 0.3,
         p_thought_text = ''The room is quiet.'' \<rparr>"
      using parse_negative by (simp add: replying_def)
    have d: "deep_think ?sv (env_stamp sample_env) (Some sample_brain) ?c ts
           = Inr (snd (add_thought sample_stamp ''The room is quiet.'' ''observation'' (- 0.3) ts))"
      using deep_think_reply [OF r c] p by (simp add: Let_def sample_env_def)
    from False hs
    have h: "hash_str ?sv (env_detections sample_env) \<noteq> last_context_hash ?e \<or> cycle_count ?e mod 3 = 0"
      by auto
    show ?thesis
      using cycle_proceed [OF h, of sample_brain ts] d False hs
      by (auto simp: think_iteration_def)
  qed
qed

text \<open>
  Claim C5. Two consecutive passes of the thought loop, the first of which ran with a
  brain, on contexts with the same detection fingerprint: when the cycle counter of the
  second is not divisible by 3, the second pass only counts the cycle (the buffer and the
  stored fingerprint are unchanged, the backend is not asked); when it is divisible by 3,
  the pass goes on to \<open>_deep_think\<close> and its outcome is that of \<open>_deep_think\<close>.
\<close>

theorem unchanged_fingerprint_cycle:
  assumes "think_iteration sv env1 (Some br1) e0 ts0 = (e1, ts1)"
    and "hash_str sv (env_detections env2) = hash_str sv (env_detections env1)"
  shows "((cycle_count e1 + 1) mod 3 \<noteq> 0 \<longrightarrow>
            think_iteration sv env2 (Some br2) e1 ts1 = (e1\<lparr>cycle_count := cycle_count e1 + 1\<rparr>, ts1))
       \<and> ((cycle_count e1 + 1) mod 3 = 0 \<longrightarrow>
            think_iteration sv env2 (Some br2) e1 ts1 =
              (case deep_think sv (env_stamp env2) (Some br2)
                      (gather_context env2 (Some br2) (e1\<lparr>cycle_count := cycle_count e1 + 1\<rparr>) ts1) ts1 of
                 Inl x \<Rightarrow> (e1\<lparr>cycle_count := cycle_count e1 + 1\<rparr>,
                           snd (add_thought (env_stamp env2) (''Internal error: '' @ str_exn x)
                                  ''alert'' 0.2 ts1))
               | Inr ts' \<Rightarrow> (e1\<lparr>cycle_count := cycle_count e1 + 1\<rparr>, ts')))"
proof -
  let ?e = "e1\<lparr>cycle_count := cycle_count e1 + 1\<rparr>"
  have "e1 = fst (think_iteration sv env1 (Some br1) e0 ts0)" using assms(1) by simp
  then have h1: "last_context_hash e1 = hash_str sv (env_detections env1)"
    by (simp add: iteration_engine)
  with assms(2) have same: "hash_str sv (env_detections env2) = last_context_hash ?e" by simp
  have a: "think_iteration sv env2 (Some br2) e1 ts1 = (?e, ts1)" if "(cycle_count e1 + 1) mod 3 \<noteq> 0"
  proof -
    have "run_thought_cycle sv env2 (Some br2) ?e ts1 = (None, ?e, ts1)"
      using same that by (intro cycle_skip) simp_all
    then show ?thesis by (simp add: think_iteration_def)
  qed
  have b: "think_iteration sv env2 (Some br2) e1 ts1 =
              (case deep_think sv (env_stamp env2) (Some br2) (gather_context env2 (Some br2) ?e ts1) ts1 of
                 Inl x \<Rightarrow> (?e, snd (add_thought (env_stamp env2) (''Internal error: '' @ str_exn x)
                                  ''alert'' 0.2 ts1))
               | Inr ts' \<Rightarrow> (?e, ts'))" if "(cycle_count e1 + 1) mod 3 = 0"
  proof -
    from that have h: "hash_str sv (env_detections env2) \<noteq> last_context_hash ?e \<or> cycle_count ?e mod 3 = 0"
      by simp
    have u: "?e\<lparr>last_context_hash := hash_str sv (env_detections env2)\<rparr> = ?e"
      using same by simp
    show ?thesis
      unfolding think_iteration_def cycle_proceed [OF h] u
      by (simp split: sum.split)
  qed
  from a b show ?thesis by blast
qed

theorem unchanged_fingerprint_cycle_witness:
  "think_iteration (replying negative_reply) sample_env (Some sample_brain)
      \<lparr>cycle_count = 0, last_context_hash = []\<rparr> []
     = (\<lparr>cycle_count = 1, last_context_hash = ''person''\<rparr>, [quiet_thought])
   \<and> think_iteration (replying negative_reply) sample_env (Some sample_brain)
      \<lparr>cycle_count = 1, last_context_hash = ''person''\<rparr> [quiet_thought]
     = (\<lparr>cycle_count = 2, last_context_hash = ''person''\<rparr>, [quiet_thought])
   \<and> think_iteration (replying negative_reply) sample_env (Some sample_brain)
      \<lparr>cycle_count = 2, last_context_hash = ''person''\<rparr> [quiet_thought]
     = (\<lparr>cycle_count = 3, last_context_hash = ''person''\<rparr>, [quiet_thought, quiet_thought])"
proof -
  let ?sv = "replying negative_reply"
  have add0: "snd (add_thought sample_stamp ''The room is quiet.'' ''observation'' (- 0.3) [])
                = [quiet_thought]"
    by (simp add: add_thought_def Let_def evict_drop MAX_THOUGHTS_def quiet_thought_def)
  have add1: "snd (add_thought sample_stamp ''The room is quiet.'' ''observation'' (- 0.3) [quiet_thought])
                = [quiet_thought, quiet_thought]"
    by (simp add: add_thought_def Let_def evict_drop MAX_THOUGHTS_def quiet_thought_def)
  have i1: "think_iteration ?sv sample_env (Some sample_brain)
              \<lparr>cycle_count = 0, last_context_hash = []\<rparr> []
            = (\<lparr>cycle_count = 1, last_context_hash = ''person''\<rparr>, [quiet_thought])"
    by (simp add: sample_iteration add0)
  have i2: "think_iteration ?sv sample_env (Some sample_brain)
              \<lparr>cycle_count = 1, last_context_hash = ''person''\<rparr> [quiet_thought]
            = (\<lparr>cycle_count = 2, last_context_hash = ''person''\<rparr>, [quiet_thought])"
    using unchanged_fingerprint_cycle [OF i1 refl, of sample_brain] by simp
  have d: "deep_think ?sv (env_stamp sample_env) (Some sample_brain)
             (gather_context sample_env (Some sample_brain)
                (\<lparr>cycle_count = 2, last_context_hash = ''person''\<rparr>
                   \<lparr>cycle_count := cycle_count \<lparr>cycle_count = 2, last_context_hash = ''person''\<rparr> + 1\<rparr>)
                [quiet_thought]) [quiet_thought]
           = Inr [quiet_thought, quiet_thought]"
    using deep_think_reply [of ?sv _ "''[AUTONOMOUS THOUGHT CYCLE]''" sample_brain
            "\<lparr> resp_content = negative_reply, tool_calls = [] \<rparr>" "env_stamp sample_env" "[quiet_thought]"]
          parse_negative add1
    by (simp add: replying_def Let_def sample_env_def)
  have i3: "think_iteration ?sv sample_env (Some sample_brain)
              \<lparr>cycle_count = 2, last_context_hash = ''person''\<rparr> [quiet_thought]
            = (\<lparr>cycle_count = 3, last_context_hash = ''person''\<rparr>, [quiet_thought, quiet_thought])"
    using unchanged_fingerprint_cycle [OF i2 refl, of sample_brain] d by simp
  from i1 i2 i3 show ?thesis by simp
qed

section \<open>Properties of the free-talk scheduler\<close>

lemma max_by_mem: "max_by k b xs \<in> set (b # xs)"
  by (induction xs arbitrary: b) auto

lemma max_by_ge_start: "k b \<le> k (max_by k b xs)"
proof (induction xs arbitrary: b)
  case Nil
  then show ?case by simp
next
  case (Cons x xs)
  have "k b \<le> k (if k x > k b then x else b)" by simp
  also have "\<dots> \<le> k (max_by k (if k x > k b then x else b) xs)" by (rule Cons.IH)
  finally show ?case by simp
qed

lemma max_by_ge: "x \<in> set (b # xs) \<Longrightarrow> k x \<le> k (max_by k b xs)"
proof (induction xs arbitrary: b)
  case Nil
  then show ?case by simp
next
  case (Cons y ys)
  let ?b = "if k y > k b then y else b"
  from Cons.prems consider "x = b" | "x = y" | "x \<in> set ys" by auto
  then show ?case
  proof cases
    case 1
    have "k b \<le> k ?b" by simp
    also have "\<dots> \<le> k (max_by k ?b ys)" by (rule max_by_ge_start)
    finally show ?thesis using 1 by simp
  next
    case 2
    have "k y \<le> k ?b" by simp
    also have "\<dots> \<le> k (max_by k ?b ys)" by (rule max_by_ge_start)
    finally show ?thesis using 2 by simp
  next
    case 3
    then have "x \<in> set (?b # ys)" by simp
    from Cons.IH [OF this] show ?thesis by simp
  qed
qed

lemma speakable_eligible:
  "set (get_speakable_thoughts (time_filter env) (real_of_int (min_interval st + 10)) ts)
     = {t \<in> set ts. eligible st env t}"
  by (auto simp: get_speakable_thoughts_def eligible_def)

lemma talk_step_cases:
  assumes "talk_step env st ts = (out, st', ts')"
  obtains
    (idle) "selected out = None" "st' = st" "ts' = ts"
      "paused st \<or> user_speaking st
       \<or> time_throttle env - last_spoke st < real_of_int (min_interval st)
       \<or> get_speakable_thoughts (time_filter env) (real_of_int (min_interval st + 10)) ts = []"
  | (chosen) t rest where
      "\<not> paused st" "\<not> user_speaking st"
      "\<not> time_throttle env - last_spoke st < real_of_int (min_interval st)"
      "get_speakable_thoughts (time_filter env) (real_of_int (min_interval st + 10)) ts = t # rest"
      "selected out = Some (max_by speak_score t rest)"
      "(\<exists>b. out = Spoke b) \<longrightarrow> out = Spoke (max_by speak_score t rest)
          \<and> st' = st\<lparr>last_spoke := time_spoke env\<rparr>
          \<and> ts' = mark_thought_spoken (thought_id (max_by speak_score t rest)) ts"
      "(\<forall>b. out \<noteq> Spoke b) \<longrightarrow> st' = st \<and> ts' = ts"
proof (cases "paused st \<or> user_speaking st
       \<or> time_throttle env - last_spoke st < real_of_int (min_interval st)
       \<or> get_speakable_thoughts (time_filter env) (real_of_int (min_interval st + 10)) ts = []")
  case True
  with assms have "selected out = None \<and> st' = st \<and> ts' = ts"
    by (auto simp: talk_step_def split: if_splits)
  with True show ?thesis using idle by blast
next
  case False
  then obtain t rest where
    sp: "get_speakable_thoughts (time_filter env) (real_of_int (min_interval st + 10)) ts = t # rest"
    by (cases "get_speakable_thoughts (time_filter env) (real_of_int (min_interval st + 10)) ts") auto
  from False sp assms
  have "selected out = Some (max_by speak_score t rest)
      \<and> ((\<exists>b. out = Spoke b) \<longrightarrow> out = Spoke (max_by speak_score t rest)
          \<and> st' = st\<lparr>last_spoke := time_spoke env\<rparr>
          \<and> ts' = mark_thought_spoken (thought_id (max_by speak_score t rest)) ts)
      \<and> ((\<forall>b. out \<noteq> Spoke b) \<longrightarrow> st' = st \<and> ts' = ts)"
    by (auto simp: talk_step_def Let_def split: if_splits option.splits)
  with False sp show ?thesis using chosen [of t rest] by blast
qed


text \<open>
  Claim C3 (fails on the code). After speaking, the loop calls
  \<open>mark_thought_spoken(best["id"])\<close> to mark the thought it spoke, and that
  function marks the first buffer entry that carries the id. Ids are not unique (same
  second of the day, same random number), so with an older entry of the same id in the
  buffer the thought that was spoken stays unmarked and the older one is marked.
\<close>

theorem emitted_thought_left_unmarked:
  "reached 30 True [Thought_added old_new, Thought_added fresh_new]
     = (fst (talk_init 30 True), [made old_new, made fresh_new])
   \<and> talk_step day2_env (fst (talk_init 30 True)) [made old_new, made fresh_new]
     = (Spoke (made fresh_new), (fst (talk_init 30 True))\<lparr>last_spoke := 87412\<rparr>,
        [(made old_new)\<lparr>spoken := True\<rparr>, made fresh_new])
   \<and> \<not> spoken (made fresh_new)"
proof -
  have a1: "add_one [] old_new = [made old_new]"
    by (simp add: add_one_eq MAX_THOUGHTS_def)
  have a2: "add_one [made old_new] fresh_new = [made old_new, made fresh_new]"
    by (simp add: add_one_eq MAX_THOUGHTS_def)
  have r: "reached 30 True [Thought_added old_new, Thought_added fresh_new]
     = (fst (talk_init 30 True), [made old_new, made fresh_new])"
    by (simp add: reached_def talk_init_def a1 a2)
  have sp: "get_speakable_thoughts (time_filter day2_env)
              (real_of_int (min_interval (fst (talk_init 30 True)) + 10))
              [made old_new, made fresh_new] = [made fresh_new]"
    by (simp add: get_speakable_thoughts_def day2_env_def talk_init_def made_def make_thought_def
          old_new_def fresh_new_def)
  have s: "talk_step day2_env (fst (talk_init 30 True)) [made old_new, made fresh_new]
     = (Spoke (made fresh_new), (fst (talk_init 30 True))\<lparr>last_spoke := 87412\<rparr>,
        [(made old_new)\<lparr>spoken := True\<rparr>, made fresh_new])"
    unfolding talk_step_def sp
    by (simp add: Let_def day2_env_def talk_init_def made_def make_thought_def old_new_def fresh_new_def)
  have n: "\<not> spoken (made fresh_new)"
    by (simp add: made_def make_thought_def)
  from r s n show ?thesis by simp
qed

text \<open>
  What does hold of the scheduler, in every state the loop reaches. One pass of the loop
  \<^item> binds \<open>best\<close> only to a buffer entry that is eligible (recent, scored above 0.5,
    not spoken) and whose score is maximal among the eligible entries;
  \<^item> selects nothing and changes nothing when less than \<open>min_interval\<close> seconds have
    passed since \<open>_last_spoke\<close>, the time stored at the previous emission;
  \<^item> does select when it is neither paused, nor told that the user speaks, nor
    throttled, and some entry is eligible;
  \<^item> on emission stores the clock in \<open>_last_spoke\<close> and applies
    \<open>mark_thought_spoken\<close> to the id of the chosen thought;
  \<^item> changes neither the controller nor the buffer when nothing is emitted.
\<close>

theorem scheduler_selection:
  assumes "reached mi sp evs = (st, ts)"
    and "talk_step env st ts = (out, st', ts')"
  shows "(\<forall>b. selected out = Some b \<longrightarrow>
            b \<in> set ts \<and> \<not> spoken b \<and> eligible st env b
            \<and> (\<forall>t \<in> set ts. eligible st env t \<longrightarrow> speak_score t \<le> speak_score b))
       \<and> (time_throttle env - last_spoke st < real_of_int (min_interval st) \<longrightarrow>
            selected out = None \<and> st' = st \<and> ts' = ts)
       \<and> (\<not> paused st \<and> \<not> user_speaking st
            \<and> real_of_int (min_interval st) \<le> time_throttle env - last_spoke st
            \<and> (\<exists>t \<in> set ts. eligible st env t) \<longrightarrow> selected out \<noteq> None)
       \<and> (\<forall>b. out = Spoke b \<longrightarrow>
            last_spoke st' = time_spoke env
            \<and> ts' = mark_thought_spoken (thought_id b) ts)
       \<and> ((\<forall>b. out \<noteq> Spoke b) \<longrightarrow> st' = st \<and> ts' = ts)"
  using assms(2)
proof (cases rule: talk_step_cases)
  case idle
  from idle(4) have "\<not> (\<not> paused st \<and> \<not> user_speaking st
            \<and> real_of_int (min_interval st) \<le> time_throttle env - last_spoke st
            \<and> (\<exists>t \<in> set ts. eligible st env t))"
    using speakable_eligible [of env st ts] by auto
  moreover from idle have "\<forall>b. out \<noteq> Spoke b" by auto
  ultimately show ?thesis using idle(1-3) by simp
next
  case (chosen t rest)
  let ?b = "max_by speak_score t rest"
  let ?sp = "get_speakable_thoughts (time_filter env) (real_of_int (min_interval st + 10)) ts"
  have mem: "?b \<in> set ?sp" using max_by_mem [of speak_score t rest] chosen(4) by simp
  then have b: "?b \<in> set ts" "eligible st env ?b"
    using speakable_eligible [of env st ts] by auto
  then have nsp: "\<not> spoken ?b" by (simp add: eligible_def)
  have mx: "speak_score u \<le> speak_score ?b" if "u \<in> set ts" "eligible st env u" for u
  proof -
    from that have "u \<in> set ?sp" using speakable_eligible [of env st ts] by auto
    then have "u \<in> set (t # rest)" using chosen(4) by simp
    then show ?thesis by (rule max_by_ge)
  qed
  have c1: "\<forall>b. selected out = Some b \<longrightarrow>
            b \<in> set ts \<and> \<not> spoken b \<and> eligible st env b
            \<and> (\<forall>t \<in> set ts. eligible st env t \<longrightarrow> speak_score t \<le> speak_score b)"
    using chosen(5) b nsp mx by auto
  have c2: "time_throttle env - last_spoke st < real_of_int (min_interval st) \<longrightarrow>
            selected out = None \<and> st' = st \<and> ts' = ts"
    using chosen(3) by simp
  have c3: "selected out \<noteq> None" using chosen(5) by simp
  have c4: "\<forall>b. out = Spoke b \<longrightarrow>
            last_spoke st' = time_spoke env
            \<and> ts' = mark_thought_spoken (thought_id b) ts"
  proof (intro allI impI)
    fix b0 assume o: "out = Spoke b0"
    with chosen(6) have e: "b0 = ?b" "st' = st\<lparr>last_spoke := time_spoke env\<rparr>"
      "ts' = mark_thought_spoken (thought_id ?b) ts" by auto
    then show "last_spoke st' = time_spoke env
            \<and> ts' = mark_thought_spoken (thought_id b0) ts"
      by simp
  qed
  from c1 c2 c3 c4 chosen(7) show ?thesis by blast
qed

theorem scheduler_selection_witness:
  "reached 30 True [Thought_added mild_new, Thought_added keen_new]
     = (fst (talk_init 30 True), [made mild_new, made keen_new])
   \<and> talk_step day1_env (fst (talk_init 30 True)) [made mild_new, made keen_new]
     = (Spoke (made keen_new), (fst (talk_init 30 True))\<lparr>last_spoke := 1012\<rparr>,
        [made mild_new, (made keen_new)\<lparr>spoken := True\<rparr>])
   \<and> eligible (fst (talk_init 30 True)) day1_env (made mild_new)
   \<and> eligible (fst (talk_init 30 True)) day1_env (made keen_new)
   \<and> speak_score (made mild_new) \<le> speak_score (made keen_new)"
proof -
  let ?st = "fst (talk_init 30 True)"
  let ?ts = "[made mild_new, made keen_new]"
  have a1: "add_one [] mild_new = [made mild_new]"
    by (simp add: add_one_eq MAX_THOUGHTS_def)
  have a2: "add_one [made mild_new] keen_new = ?ts"
    by (simp add: add_one_eq MAX_THOUGHTS_def)
  have r: "reached 30 True [Thought_added mild_new, Thought_added keen_new] = (?st, ?ts)"
    by (simp add: reached_def talk_init_def a1 a2)
  have sp: "get_speakable_thoughts (time_filter day1_env) (real_of_int (min_interval ?st + 10)) ?ts = ?ts"
    by (simp add: get_speakable_thoughts_def day1_env_def talk_init_def made_def make_thought_def
          mild_new_def keen_new_def)
  have s: "talk_step day1_env ?st ?ts
     = (Spoke (made keen_new), ?st\<lparr>last_spoke := 1012\<rparr>,
        [made mild_new, (made keen_new)\<lparr>spoken := True\<rparr>])"
    unfolding talk_step_def sp
    by (simp add: Let_def day1_env_def talk_init_def made_def make_thought_def mild_new_def keen_new_def)
  note th = scheduler_selection [OF r s]
  from th have sel: "eligible ?st day1_env (made keen_new)
      \<and> (\<forall>t \<in> set ?ts. eligible ?st day1_env t \<longrightarrow> speak_score t \<le> speak_score (made keen_new))"
    by simp
  have el: "eligible ?st day1_env (made mild_new)"
    by (simp add: eligible_def day1_env_def talk_init_def made_def make_thought_def mild_new_def)
  from sel el have le: "speak_score (made mild_new) \<le> speak_score (made keen_new)" by simp
  from r s sel el le show ?thesis by simp
qed

section \<open>Properties of the skill registry\<close>

lemma map_of_skill: "map_of (skill n d p f S) = (map_of S)(n \<mapsto> skill_entry d p f)"
  by (simp add: skill_def update_conv')

lemma map_of_register: "map_of (register S r) = (map_of S)(reg_name r \<mapsto> info_of r)"
  by (simp add: register_def info_of_def map_of_skill)

lemma map_of_registers_cong:
  "map_of S k = map_of T k \<Longrightarrow> map_of (foldl register S rs) k = map_of (foldl register T rs) k"
proof (induction rs arbitrary: S T)
  case Nil
  then show ?case by simp
next
  case (Cons r rs)
  have "map_of (register S r) k = map_of (register T r) k"
    using Cons.prems by (simp add: map_of_register)
  from Cons.IH [OF this] show ?case by simp
qed

lemma registers_keep:
  "map_of S k \<noteq> None \<Longrightarrow> map_of (foldl register S rs) k \<noteq> None"
proof (induction rs arbitrary: S)
  case Nil
  then show ?case by simp
next
  case (Cons r rs)
  have "map_of (register S r) k \<noteq> None"
    using Cons.prems by (simp add: map_of_register)
  from Cons.IH [OF this] show ?case by simp
qed

lemma discover_keeps:
  "map_of (SKILLS st) k \<noteq> None \<Longrightarrow> map_of (SKILLS (discover pkg st)) k \<noteq> None"
  using registers_keep [of "SKILLS st" k pkg] by (simp add: discover_def)

lemma discover_cong:
  assumes "map_of (SKILLS stA) k = map_of (SKILLS stB) k" and "discovered stA = discovered stB"
  shows "map_of (SKILLS (discover pkg stA)) k = map_of (SKILLS (discover pkg stB)) k"
  using assms map_of_registers_cong [of "SKILLS stA" k "SKILLS stB" pkg]
  by (simp add: discover_def)

lemma execute_known:
  assumes "map_of (SKILLS (discover pkg st)) name = Some info"
  shows "execute pkg rn name arguments st w =
           (let args = (case arguments of None \<Rightarrow> [] | Some a \<Rightarrow> a) in
            if sk_is_async info \<and> running_loop rn
            then (Inr (future_text rn), discover pkg st, snd (call (sk_function info) args w))
            else (case fst (call (sk_function info) args w) of
                    Inl x \<Rightarrow> (Inl x, discover pkg st, snd (call (sk_function info) args w))
                  | Inr r \<Rightarrow> (Inr (str_or_done r), discover pkg st, snd (call (sk_function info) args w))))"
  using assms
  by (auto simp: execute_def Let_def split: prod.splits sum.splits)

lemma execute_unknown:
  assumes "map_of (SKILLS (discover pkg st)) name = None"
  shows "execute pkg rn name arguments st w =
           (Inl (KeyError (unknown_skill_message name (map fst (SKILLS (discover pkg st))))),
            discover pkg st, w)"
  using assms by (simp add: execute_def Let_def)


text \<open>
  Claim C6. Registering a name a second time overwrites the first registration: whatever
  was registered in between, the store after both registrations maps every name to the
  same skill as the store after the second registration alone, so looking the name up
  gives the second registration and \<open>execute\<close> returns the same result and leaves
  the same world. A name that is not in the store (after discovery) makes
  \<open>execute\<close> raise \<open>KeyError\<close> with a message that starts with
  \<open>Unknown skill: '<name>'\<close>, without calling any skill function.
\<close>

theorem last_registration_wins:
  "map_of (skill n d2 p2 f2 (foldl register (skill n d1 p1 f1 S) rs))
     = map_of (skill n d2 p2 f2 (foldl register S rs))
   \<and> map_of (skill n d2 p2 f2 (foldl register (skill n d1 p1 f1 S) rs)) n
     = Some (skill_entry d2 p2 f2)
   \<and> sk_function (skill_entry d2 p2 f2) = f2
   \<and> fst (execute pkg rn n args
             \<lparr>SKILLS = skill n d2 p2 f2 (foldl register (skill n d1 p1 f1 S) rs), discovered = dv\<rparr> w)
     = fst (execute pkg rn n args
             \<lparr>SKILLS = skill n d2 p2 f2 (foldl register S rs), discovered = dv\<rparr> w)
   \<and> snd (snd (execute pkg rn n args
             \<lparr>SKILLS = skill n d2 p2 f2 (foldl register (skill n d1 p1 f1 S) rs), discovered = dv\<rparr> w))
     = snd (snd (execute pkg rn n args
             \<lparr>SKILLS = skill n d2 p2 f2 (foldl register S rs), discovered = dv\<rparr> w))
   \<and> (map_of (SKILLS (discover pkg st)) m = None \<longrightarrow>
        execute pkg rn m args st w =
          (Inl (KeyError (''Unknown skill: '' @ [CHR 0x27] @ m @ [CHR 0x27] @ ''. Available: ''
                  @ repr_list (take 10 (map fst (SKILLS (discover pkg st))))
                  @ (if length (SKILLS (discover pkg st)) > 10 then ''...'' else []))),
           discover pkg st, w))"
proof -
  let ?twice = "skill n d2 p2 f2 (foldl register (skill n d1 p1 f1 S) rs)"
  let ?once = "skill n d2 p2 f2 (foldl register S rs)"
  let ?i2 = "skill_entry d2 p2 f2"
  have eq: "map_of ?twice = map_of ?once"
  proof
    fix k
    show "map_of ?twice k = map_of ?once k"
    proof (cases "k = n")
      case True
      then show ?thesis by (simp add: map_of_skill)
    next
      case False
      then have "map_of (skill n d1 p1 f1 S) k = map_of S k"
        by (simp add: map_of_skill)
      from map_of_registers_cong [OF this, of rs] False
      show ?thesis by (simp add: map_of_skill)
    qed
  qed
  have lk: "map_of ?twice n = Some ?i2"
    by (simp add: map_of_skill)
  have fn: "sk_function ?i2 = f2"
    by (simp add: skill_entry_def)
  let ?A = "\<lparr>SKILLS = ?twice, discovered = dv\<rparr>"
  let ?B = "\<lparr>SKILLS = ?once, discovered = dv\<rparr>"
  have dc: "map_of (SKILLS (discover pkg ?A)) n = map_of (SKILLS (discover pkg ?B)) n"
    by (rule discover_cong) (simp_all add: eq)
  have ex: "fst (execute pkg rn n args ?A w) = fst (execute pkg rn n args ?B w)
          \<and> snd (snd (execute pkg rn n args ?A w)) = snd (snd (execute pkg rn n args ?B w))"
  proof (cases "map_of (SKILLS (discover pkg ?A)) n")
    case None
    moreover have "map_of (SKILLS (discover pkg ?A)) n \<noteq> None"
      by (rule discover_keeps) (simp add: lk)
    ultimately show ?thesis by simp
  next
    case (Some info)
    with dc have "map_of (SKILLS (discover pkg ?B)) n = Some info" by simp
    with Some show ?thesis
      by (simp add: execute_known Let_def split: sum.split)
  qed
  have un: "map_of (SKILLS (discover pkg st)) m = None \<longrightarrow>
        execute pkg rn m args st w =
          (Inl (KeyError (''Unknown skill: '' @ [CHR 0x27] @ m @ [CHR 0x27] @ ''. Available: ''
                  @ repr_list (take 10 (map fst (SKILLS (discover pkg st))))
                  @ (if length (SKILLS (discover pkg st)) > 10 then ''...'' else []))),
           discover pkg st, w)"
    by (simp add: execute_unknown unknown_skill_message_def)
  from eq lk fn ex un show ?thesis by blast
qed


theorem last_registration_wins_witness:
  "map_of (SKILLS (discover [] ping_twice)) ''fly'' = None
   \<and> execute [] no_loop ''fly'' None ping_twice []
     = (Inl (KeyError (''Unknown skill: '' @ [CHR 0x27] @ ''fly'' @ [CHR 0x27] @ ''. Available: [''
                        @ [CHR 0x27] @ ''ping'' @ [CHR 0x27] @ '']'')),
        ping_twice, [])
   \<and> execute [] no_loop ''ping'' None ping_twice [] = (Inr ''new'', ping_twice, [''ping2''])"
proof -
  have d: "discover [] ping_twice = ping_twice"
    by (simp add: discover_def ping_twice_def)
  have s: "SKILLS ping_twice = [(''ping'', skill_entry ''Second ping.'' None (returning ''ping2'' ''new''))]"
    by (simp add: ping_twice_def skill_def)
  have n: "map_of (SKILLS (discover [] ping_twice)) ''fly'' = None"
    by (simp add: d s)
  have m: "repr_list (take 10 (map fst (SKILLS (discover [] ping_twice))))
             = ''['' @ [CHR 0x27] @ ''ping'' @ [CHR 0x27] @ '']''"
    by (simp add: d s repr_list_def py_repr_def repr_char_def printable_def Let_def)
  have k: "map_of (SKILLS (discover [] ping_twice)) ''ping''
             = Some (skill_entry ''Second ping.'' None (returning ''ping2'' ''new''))"
    by (simp add: d s)
  have e: "execute [] no_loop ''ping'' None ping_twice [] = (Inr ''new'', ping_twice, [''ping2''])"
    by (simp add: execute_known [OF k] d skill_entry_def returning_def no_loop_def str_or_done_def)
  from last_registration_wins
         [of "''ping''" "''Second ping.''" None "returning ''ping2'' ''new''" "''First ping.''" None
             "returning ''ping1'' ''old''" "[]" "[]" "[]" no_loop None True "[]" ping_twice "''fly''"]
       n m d s e
  show ?thesis by simp
qed

section \<open>Properties of the dispatch loop\<close>

lemma dispatch_one_tool: "tool (fst (dispatch_one sr b c st w)) = tc_name c"
  by (simp add: dispatch_one_def split: prod.split sum.split)

lemma etc_append:
  "execute_tool_calls sr b (xs @ ys) st w =
     (case execute_tool_calls sr b xs st w of
        (r1, st1, w1) \<Rightarrow>
          (case execute_tool_calls sr b ys st1 w1 of
             (r2, st2, w2) \<Rightarrow> (r1 @ r2, st2, w2)))"
  by (induction xs arbitrary: st w) (auto split: prod.splits)

lemma etc_names: "map tool (fst (execute_tool_calls sr b cs st w)) = map tc_name cs"
proof (induction cs arbitrary: st w)
  case Nil
  then show ?case by simp
next
  case (Cons c cs)
  obtain r st1 w1 where d: "dispatch_one sr b c st w = (r, st1, w1)"
    by (metis prod_cases3)
  obtain rs st' w' where e: "execute_tool_calls sr b cs st1 w1 = (rs, st', w')"
    by (metis prod_cases3)
  from Cons.IH [of st1 w1] e have "map tool rs = map tc_name cs" by simp
  moreover from dispatch_one_tool [of sr b c st w] d have "tool r = tc_name c" by simp
  ultimately show ?case using d e by simp
qed

lemma etc_length: "length (fst (execute_tool_calls sr b cs st w)) = length cs"
  using etc_names [of sr b cs st w] by (metis length_map)

lemma tool_registry_skills:
  "SKILLS tool_registry =
     [(''ping'', skill_entry ''Returns pong.'' None (returning ''ping'' ''pong'')),
      (''fail'', skill_entry ''Raises.'' None (raising ''fail'' ''boom'' False)),
      (''afail'', skill_entry ''Raises, coroutine.'' None (raising ''afail'' ''boom'' True))]"
  by (simp add: tool_registry_def skill_def)

lemma tool_registry_discover: "discover pkg tool_registry = tool_registry"
  by (simp add: discover_def tool_registry_def)

lemma execute_ping:
  "execute pkg rn ''ping'' None tool_registry w = (Inr ''pong'', tool_registry, w @ [''ping''])"
  by (simp add: execute_def tool_registry_discover tool_registry_skills skill_entry_def
        returning_def str_or_done_def Let_def)

lemma execute_fail:
  "execute pkg rn ''fail'' None tool_registry w
     = (Inl (Exception ''boom''), tool_registry, w @ [''fail''])"
  by (simp add: execute_def tool_registry_discover tool_registry_skills skill_entry_def
        raising_def Let_def)

lemma execute_afail:
  "execute pkg rn ''afail'' None tool_registry w
     = (if running_loop rn then (Inr (future_text rn), tool_registry, w @ [''afail''])
        else (Inl (Exception ''boom''), tool_registry, w @ [''afail'']))"
  by (simp add: execute_def tool_registry_discover tool_registry_skills skill_entry_def
        raising_def Let_def)

text \<open>
  Claim C2 (fails on the code). A coroutine skill that raises, dispatched while an event
  loop runs in the calling thread: \<open>execute\<close> returns the \<open>str\<close> of the future
  it never awaits, so the dispatch loop records the call as a success whose text does
  not mention the error. The call after it is still executed.
\<close>

theorem coroutine_failure_recorded_as_success:
  "call (raising ''afail'' ''boom'' True) [] [] = (Inl (Exception ''boom''), [''afail''])
   \<and> execute_tool_calls (around (scripted []) in_loop) sample_brain
        [calling ''afail'', calling ''ping''] tool_registry []
     = ([\<lparr>tool = ''afail'', result = ''<Future pending>'', success = True\<rparr>,
         \<lparr>tool = ''ping'', result = ''pong'', success = True\<rparr>],
        tool_registry, [''afail'', ''ping''])"
  by (simp add: raising_def dispatch_one_def around_def calling_def sample_brain_def
        execute_ping execute_afail in_loop_def)


text \<open>
  What does hold of the dispatch loop, for every list of calls: one result per call, in
  request order, each call dispatched in the registry and world its predecessors left
  (whether they failed or not); an exception that \<open>execute\<close> raises becomes a failed
  result with the text \<open>Error: <name>: <str of the exception>\<close>; and \<open>execute\<close>
  raises what the skill function raises, unless the skill is a coroutine function and an
  event loop is running.
\<close>

theorem dispatch_results:
  "length (fst (execute_tool_calls sr b cs st w)) = length cs
   \<and> map tool (fst (execute_tool_calls sr b cs st w)) = map tc_name cs
   \<and> execute_tool_calls sr b (xs @ c # ys) st w =
       (case execute_tool_calls sr b xs st w of
          (r1, st1, w1) \<Rightarrow>
            (case dispatch_one sr b c st1 w1 of
               (r, st2, w2) \<Rightarrow>
                 (case execute_tool_calls sr b ys st2 w2 of
                    (r2, st3, w3) \<Rightarrow> (r1 @ r # r2, st3, w3))))
   \<and> (has_skill_registry b
        \<and> fst (execute (package sr) (rt_env sr) (tc_name c) (tc_arguments c) st w) = Inl x \<longrightarrow>
        fst (dispatch_one sr b c st w) =
          \<lparr>tool = tc_name c, result = ''Error: '' @ tc_name c @ '': '' @ str_exn x,
            success = False\<rparr>)
   \<and> (map_of (SKILLS (discover pkg st)) name = Some info
        \<and> \<not> (sk_is_async info \<and> running_loop rn)
        \<and> fst (call (sk_function info) args w) = Inl x \<longrightarrow>
        fst (execute pkg rn name (Some args) st w) = Inl x)"
proof -
  have a: "execute_tool_calls sr b (xs @ c # ys) st w =
       (case execute_tool_calls sr b xs st w of
          (r1, st1, w1) \<Rightarrow>
            (case dispatch_one sr b c st1 w1 of
               (r, st2, w2) \<Rightarrow>
                 (case execute_tool_calls sr b ys st2 w2 of
                    (r2, st3, w3) \<Rightarrow> (r1 @ r # r2, st3, w3))))"
    by (simp add: etc_append split: prod.split)
  have d: "fst (dispatch_one sr b c st w) =
          \<lparr>tool = tc_name c, result = ''Error: '' @ tc_name c @ '': '' @ str_exn x,
            success = False\<rparr>"
    if "has_skill_registry b"
      "fst (execute (package sr) (rt_env sr) (tc_name c) (tc_arguments c) st w) = Inl x"
    using that
    by (cases "execute (package sr) (rt_env sr) (tc_name c) (tc_arguments c) st w")
       (simp add: dispatch_one_def)
  have e: "fst (execute pkg rn name (Some args) st w) = Inl x"
    if "map_of (SKILLS (discover pkg st)) name = Some info"
      "\<not> (sk_is_async info \<and> running_loop rn)"
      "fst (call (sk_function info) args w) = Inl x"
    using that
    by (cases "call (sk_function info) args w") (auto simp: execute_def Let_def)
  from a d e etc_length [of sr b cs st w] etc_names [of sr b cs st w]
  show ?thesis by blast
qed

theorem dispatch_results_witness:
  "has_skill_registry sample_brain
   \<and> fst (execute (package (around (scripted []) no_loop)) (rt_env (around (scripted []) no_loop))
            (tc_name (calling ''fail'')) (tc_arguments (calling ''fail'')) tool_registry [])
       = Inl (Exception ''boom'')
   \<and> fst (dispatch_one (around (scripted []) no_loop) sample_brain (calling ''fail'') tool_registry [])
       = \<lparr>tool = ''fail'', result = ''Error: fail: boom'', success = False\<rparr>
   \<and> execute_tool_calls (around (scripted []) no_loop) sample_brain
        [calling ''fail'', calling ''ping''] tool_registry []
       = ([\<lparr>tool = ''fail'', result = ''Error: fail: boom'', success = False\<rparr>,
           \<lparr>tool = ''ping'', result = ''pong'', success = True\<rparr>],
          tool_registry, [''fail'', ''ping''])"
proof -
  let ?sr = "around (scripted []) no_loop"
  have h: "has_skill_registry sample_brain" by (simp add: sample_brain_def)
  have x: "fst (execute (package ?sr) (rt_env ?sr) (tc_name (calling ''fail''))
                 (tc_arguments (calling ''fail'')) tool_registry [])
             = Inl (Exception ''boom'')"
    by (simp add: calling_def execute_fail)
  from dispatch_results [of ?sr sample_brain "[]" tool_registry "[]" "[]" "calling ''fail''" "[]"
                            "Exception ''boom''"] h x
  have d: "fst (dispatch_one ?sr sample_brain (calling ''fail'') tool_registry [])
       = \<lparr>tool = ''fail'', result = ''Error: fail: boom'', success = False\<rparr>"
    by (simp add: calling_def)
  have r: "execute_tool_calls ?sr sample_brain [calling ''fail'', calling ''ping''] tool_registry []
       = ([\<lparr>tool = ''fail'', result = ''Error: fail: boom'', success = False\<rparr>,
           \<lparr>tool = ''ping'', result = ''pong'', success = True\<rparr>],
          tool_registry, [''fail'', ''ping''])"
    by (simp add: dispatch_one_def calling_def h execute_ping execute_fail)
  from h x d r show ?thesis by simp
qed


section \<open>Properties of the think loop\<close>















section \<open>Backend failure\<close>





section \<open>Properties of the event bus\<close>

lemma notify_eq:
  "notify start topic data hs =
     (List.map_filter (\<lambda>h. case start h data of Inr c \<Rightarrow> Some c | Inl e \<Rightarrow> None) hs,
      List.map_filter (\<lambda>h. case start h data of Inl e \<Rightarrow> Some (handler_error topic e)
                                                | Inr c \<Rightarrow> None) hs)"
  by (induction hs) (auto simp: List.map_filter_simps split: sum.splits)

lemma notify_count:
  "length (fst (notify start topic data hs)) + length (snd (notify start topic data hs))
     = length hs"
  by (induction hs) (auto split: sum.splits prod.splits)

text \<open>
  Claim C7 (fails on the code). The \<open>try\<close> block of \<open>publish\<close> encloses
  \<open>asyncio.create_task(handler(data))\<close> only. For a coroutine handler that creates
  and schedules the task and raises nothing; the exception of the handler's body is raised
  later, inside the task, where the bus neither catches nor logs it. Here the body of the
  second handler raises: all three tasks are scheduled, the one that will raise among
  them, and the bus logs no line for it. The subscription list is unchanged.
\<close>

theorem handler_body_failure_not_logged:
  "subscribers sample_bus ''sentinel.yolo'' = [''early'', ''bad'', ''late'']
   \<and> scheduled (publish coroutine_start ''sentinel.yolo'' 7 sample_bus)
       = [(''early'', None), (''bad'', Some (Exception ''boom'')), (''late'', None)]
   \<and> logged (publish coroutine_start ''sentinel.yolo'' 7 sample_bus) = []
   \<and> subscribers (bus_after (publish coroutine_start ''sentinel.yolo'' 7 sample_bus))
         ''sentinel.yolo''
       = [''early'', ''bad'', ''late'']"
proof -
  have s: "subscribers sample_bus ''sentinel.yolo'' = [''early'', ''bad'', ''late'']"
    by (simp add: sample_bus_def subscribe_def)
  then show ?thesis
    by (simp add: publish_def Let_def coroutine_start_def)
qed

text \<open>
  What does hold of \<open>publish\<close>: it stores the payload and goes through every
  handler of the topic; a handler for which the expression
  \<open>asyncio.create_task(handler(data))\<close> itself raises gets one logged line of its
  own, naming the topic and the exception, and the handlers after it are still started;
  \<open>publish\<close> returns (it has no exception to hand to the publisher), and the
  subscription lists are the same after it as before.
\<close>

theorem publish_isolates_handlers:
  "subscribers (bus_after (publish start topic data bus)) = subscribers bus
   \<and> state (bus_after (publish start topic data bus)) = (state bus)(topic \<mapsto> data)
   \<and> scheduled (publish start topic data bus)
       = List.map_filter (\<lambda>h. case start h data of Inr c \<Rightarrow> Some c | Inl e \<Rightarrow> None)
           (subscribers bus topic)
   \<and> logged (publish start topic data bus)
       = List.map_filter (\<lambda>h. case start h data of
                                  Inl e \<Rightarrow> Some (handler_error topic e) | Inr c \<Rightarrow> None)
           (subscribers bus topic)
   \<and> length (scheduled (publish start topic data bus))
       + length (logged (publish start topic data bus)) = length (subscribers bus topic)"
  using notify_count [of start topic data "subscribers bus topic"]
  by (simp add: publish_def Let_def notify_eq split: prod.split)


theorem publish_isolates_handlers_witness:
  "subscribers sample_bus ''sentinel.yolo'' = [''early'', ''bad'', ''late'']
   \<and> scheduled (publish sample_start ''sentinel.yolo'' 7 sample_bus)
       = [(''early'', 7), (''late'', 7)]
   \<and> logged (publish sample_start ''sentinel.yolo'' 7 sample_bus)
       = [''Handler error on '' @ [CHR 0x27] @ ''sentinel.yolo'' @ [CHR 0x27] @ '': boom'']
   \<and> subscribers (bus_after (publish sample_start ''sentinel.yolo'' 7 sample_bus)) ''sentinel.yolo''
       = [''early'', ''bad'', ''late'']
   \<and> get_state ''sentinel.yolo'' (bus_after (publish sample_start ''sentinel.yolo'' 7 sample_bus))
       = Some 7"
proof -
  have s: "subscribers sample_bus ''sentinel.yolo'' = [''early'', ''bad'', ''late'']"
    by (simp add: sample_bus_def subscribe_def)
  from publish_isolates_handlers [of sample_start "''sentinel.yolo''" 7 sample_bus] s
  show ?thesis
    by (simp add: List.map_filter_simps sample_start_def handler_error_def get_state_def)
qed

end
